theory Spec2Isabelle
  imports Complex_Main
begin

section \<open>JavaScript values as the component sees them\<close>

text \<open>
  The payload \<open>graphData\<close> is the result of \<open>response.json()\<close>: a JSON value. Reading a
  property that an object does not have yields \<open>undefined\<close>, so \<open>undefined\<close> is a value of
  the model too. An object is the association list of its own properties, read with
  \<open>map_of\<close>. \<open>JNum n\<close> stands for the integer-valued number \<open>n\<close> of magnitude below
  \<open>10^21\<close>, which JavaScript renders in positional decimal. Fractional numbers, and the
  larger magnitudes that JavaScript renders in exponent form, have no faithful
  rendering here: for them \<open>js_String\<close> is not what \<open>String\<close> returns, and no property below
  rests on the digits of a number.
\<close>

datatype json =
    JUndefined
  | JNull
  | JBool bool
  | JNum int
  | JStr string
  | JArr "json list"
  | JObj "(string \<times> json) list"

datatype js_error = TypeError

text \<open>Truthiness, as \<open>!x\<close>, \<open>x || y\<close> and \<open>if (x)\<close> read it.\<close>

fun truthy :: "json \<Rightarrow> bool" where
  "truthy JUndefined = False"
| "truthy JNull = False"
| "truthy (JBool b) = b"
| "truthy (JNum n) = (n \<noteq> 0)"
| "truthy (JStr s) = (s \<noteq> [])"
| "truthy (JArr xs) = True"
| "truthy (JObj kvs) = True"

text \<open>\<open>a || b\<close>: the left operand when it is truthy, the right one otherwise.\<close>

definition js_or :: "json \<Rightarrow> json \<Rightarrow> json" where
  "js_or a b = (if truthy a then a else b)"

text \<open>
  Property access \<open>v.k\<close> throws a TypeError on \<open>null\<close> and \<open>undefined\<close>. On every other
  value it yields the own property of an object, and \<open>undefined\<close> otherwise: none of the
  keys this component reads (id, name, type, properties, mentions, source, from, target,
  to, relationship, entities, relationships) is inherited from a prototype.
\<close>

fun nullish :: "json \<Rightarrow> bool" where
  "nullish JUndefined = True"
| "nullish JNull = True"
| "nullish v = False"

fun get_prop :: "json \<Rightarrow> string \<Rightarrow> json" where
  "get_prop (JObj kvs) k = (case map_of kvs k of Some v \<Rightarrow> v | None \<Rightarrow> JUndefined)"
| "get_prop v k = JUndefined"

text \<open>
  \<open>String(v)\<close>, and the property key \<open>acc[v]\<close>, convert \<open>v\<close> to a string. For an object
  the conversion calls \<open>toString\<close>; a parsed JSON object that has an own property of that
  name shadows the inherited method with a value that cannot be called, and then the
  conversion throws a TypeError. An array converts by joining the conversions of its
  elements, null and undefined elements giving the empty string, so it throws when one of
  the other elements does. \<open>String_throws\<close> says when the conversion throws;
  \<open>js_String\<close> is the string it returns when it does not. Every place of the component
  that converts a value tests \<open>String_throws\<close> first.
\<close>

fun String_throws :: "json \<Rightarrow> bool" where
  "String_throws (JObj kvs) = (''toString'' \<in> set (map fst kvs))"
| "String_throws (JArr xs) = (\<exists>x\<in>set xs. \<not> nullish x \<and> String_throws x)"
| "String_throws v = False"

text \<open>Decimal rendering of a number, and the string \<open>String(v)\<close> returns.\<close>

definition digit_char :: "nat \<Rightarrow> char" where
  "digit_char d = ''0123456789'' ! d"

function show_nat :: "nat \<Rightarrow> string" where
  "show_nat n = (if n < 10 then [digit_char n] else show_nat (n div 10) @ [digit_char (n mod 10)])"
  by pat_completeness auto
termination
  by (relation "measure (\<lambda>n. n)") auto

declare show_nat.simps [simp del]

definition show_int :: "int \<Rightarrow> string" where
  "show_int i = (if i < 0 then CHR ''-'' # show_nat (nat (- i)) else show_nat (nat i))"

fun join_with :: "string \<Rightarrow> string list \<Rightarrow> string" where
  "join_with sep [] = []"
| "join_with sep [x] = x"
| "join_with sep (x # y # ys) = x @ sep @ join_with sep (y # ys)"

fun js_String :: "json \<Rightarrow> string" where
  "js_String JUndefined = ''undefined''"
| "js_String JNull = ''null''"
| "js_String (JBool b) = (if b then ''true'' else ''false'')"
| "js_String (JNum n) = show_int n"
| "js_String (JStr s) = s"
| "js_String (JArr xs) = join_with '','' (map (\<lambda>v. if nullish v then [] else js_String v) xs)"
| "js_String (JObj kvs) = ''[object Object]''"

definition isArray :: "json \<Rightarrow> bool" where
  "isArray v = (case v of JArr xs \<Rightarrow> True | _ \<Rightarrow> False)"

definition elems :: "json \<Rightarrow> json list" where
  "elems v = (case v of JArr xs \<Rightarrow> xs | _ \<Rightarrow> [])"

section \<open>The graph elements built by the effect of GraphVisualization\<close>

text \<open>
  The object literals of the first component become records. \<open>String(...)\<close> results are
  strings; the other fields hold whatever truthy value the payload carried, or the default.
\<close>

record node =
  node_id :: string
  node_label :: json
  node_type :: json
  node_properties :: json
  node_mentions :: json

record edge =
  edge_id :: string
  source :: string
  target :: string
  edge_label :: json
  edge_type :: json

record mapped_edge =
  data :: edge
  valid :: bool

text \<open>
  The callback of \<open>graphData.entities.map\<close> (lines 43 to 51). It throws a TypeError at
  \<open>entity.id\<close> when the entity is null or undefined, and at \<open>String(...)\<close> when the value
  of \<open>entity.id || entity.name\<close> cannot be converted.
\<close>

definition node_throws :: "json \<Rightarrow> bool" where
  "node_throws entity =
     (nullish entity \<or>
      String_throws (js_or (get_prop entity ''id'') (get_prop entity ''name'')))"

definition node_of :: "json \<Rightarrow> node" where
  "node_of entity =
     \<lparr> node_id = js_String (js_or (get_prop entity ''id'') (get_prop entity ''name'')),
       node_label = js_or (get_prop entity ''name'') (JStr ''Unknown''),
       node_type = js_or (get_prop entity ''type'') (JStr ''default''),
       node_properties = js_or (get_prop entity ''properties'') (JObj []),
       node_mentions = js_or (get_prop entity ''mentions'') (JNum 1) \<rparr>"

definition node_cb :: "json \<Rightarrow> js_error + node" where
  "node_cb entity = (if node_throws entity then Inl TypeError else Inr (node_of entity))"

text \<open>\<open>Array.prototype.map\<close> with a callback that may throw: the first throw ends it.\<close>

fun map_throwing :: "('a \<Rightarrow> js_error + 'b) \<Rightarrow> 'a list \<Rightarrow> js_error + 'b list" where
  "map_throwing f [] = Inr []"
| "map_throwing f (x # xs) =
     (case f x of
        Inl e \<Rightarrow> Inl e
      | Inr y \<Rightarrow> (case map_throwing f xs of Inl e \<Rightarrow> Inl e | Inr ys \<Rightarrow> Inr (y # ys)))"

definition nodes_of :: "json list \<Rightarrow> js_error + node list" where
  "nodes_of entities = map_throwing node_cb entities"

definition validNodeIds :: "node list \<Rightarrow> string set" where
  "validNodeIds nodes = set (map node_id nodes)"

text \<open>
  The callback of \<open>graphData.relationships.map((rel, idx) => ...)\<close> (lines 60 to 74). It
  throws a TypeError at \<open>rel.source\<close> when the relationship is null or undefined, and at
  either \<open>String(...)\<close> when the endpoint value cannot be converted.
\<close>

definition rel_throws :: "json \<Rightarrow> bool" where
  "rel_throws rel =
     (nullish rel \<or>
      String_throws (js_or (js_or (get_prop rel ''source'') (get_prop rel ''from'')) (JStr [])) \<or>
      String_throws (js_or (js_or (get_prop rel ''target'') (get_prop rel ''to'')) (JStr [])))"

definition rel_source :: "json \<Rightarrow> string" where
  "rel_source rel = js_String (js_or (js_or (get_prop rel ''source'') (get_prop rel ''from'')) (JStr []))"

definition rel_target :: "json \<Rightarrow> string" where
  "rel_target rel = js_String (js_or (js_or (get_prop rel ''target'') (get_prop rel ''to'')) (JStr []))"

definition rel_type :: "json \<Rightarrow> json" where
  "rel_type rel = js_or (js_or (get_prop rel ''type'') (get_prop rel ''relationship'')) (JStr ''related'')"

definition edge_of :: "string set \<Rightarrow> nat \<Rightarrow> json \<Rightarrow> mapped_edge" where
  "edge_of ids idx rel =
     \<lparr> data = \<lparr> edge_id = ''edge-'' @ show_nat idx,
                source = rel_source rel,
                target = rel_target rel,
                edge_label = rel_type rel,
                edge_type = rel_type rel \<rparr>,
       valid = (rel_source rel \<in> ids \<and> rel_target rel \<in> ids) \<rparr>"

definition edge_cb :: "string set \<Rightarrow> nat \<times> json \<Rightarrow> js_error + mapped_edge" where
  "edge_cb ids p = (if rel_throws (snd p) then Inl TypeError else Inr (edge_of ids (fst p) (snd p)))"

definition mapped_edges :: "string set \<Rightarrow> json list \<Rightarrow> js_error + mapped_edge list" where
  "mapped_edges ids relationships = map_throwing (edge_cb ids) (enumerate 0 relationships)"

text \<open>The message of \<open>console.warn\<close> in the filter callback, one per edge it drops.\<close>

definition skip_message :: "mapped_edge \<Rightarrow> string" where
  "skip_message e = ''Skipping invalid edge: '' @ source (data e) @ '' -> '' @ target (data e)"

record elements =
  nodes :: "node list"
  edges :: "edge list"
  skipped :: "string list"

text \<open>
  Lines 43 to 82 of the effect: the nodes, the set of their ids, and the relationships
  mapped, filtered (with a warning for each one dropped) and stripped of the flag.
\<close>

definition graph_elements :: "json list \<Rightarrow> json list \<Rightarrow> js_error + elements" where
  "graph_elements entities relationships =
     (case nodes_of entities of
        Inl e \<Rightarrow> Inl e
      | Inr ns \<Rightarrow>
          (case mapped_edges (validNodeIds ns) relationships of
             Inl e \<Rightarrow> Inl e
           | Inr ms \<Rightarrow>
               Inr \<lparr> nodes = ns,
                     edges = map data (filter valid ms),
                     skipped = map skip_message (filter (\<lambda>m. \<not> valid m) ms) \<rparr>))"

section \<open>Type counts for the legend\<close>

text \<open>
  The accumulator of \<open>reduce\<close> is a plain object \<open>{}\<close>, so \<open>acc[type]\<close> also finds what
  \<open>Object.prototype\<close> provides. For such a key \<open>(acc[type] || 0) + 1\<close> is a string
  concatenation, not a number: the value is \<open>Junk\<close> (its text is the engine's). The
  accessor \<open>__proto__\<close> ignores the assignment of a string, so that key never becomes an
  own property. The list is the object as an association of its own keys to their
  values, in the order the keys were first assigned. That is not the order in which the
  object enumerates them: \<open>Object.entries\<close> puts the keys that are array indices first, in
  ascending order. The order of the legend's rows is not modelled. Converting the type to
  a key can throw, as \<open>String\<close> can; \<open>tally_throws\<close> says when one of the two tallies does.
\<close>

datatype count_val = Count nat | Junk

type_synonym counts = "(string \<times> count_val) list"

definition object_prototype_keys :: "string list" where
  "object_prototype_keys =
     [''constructor'', ''hasOwnProperty'', ''isPrototypeOf'', ''propertyIsEnumerable'',
      ''toLocaleString'', ''toString'', ''valueOf'', ''__proto__'', ''__defineGetter__'',
      ''__defineSetter__'', ''__lookupGetter__'', ''__lookupSetter__'']"

definition assign :: "counts \<Rightarrow> string \<Rightarrow> count_val \<Rightarrow> counts" where
  "assign acc k v =
     (if k \<in> set (map fst acc)
      then map (\<lambda>kv. if fst kv = k then (k, v) else kv) acc
      else acc @ [(k, v)])"

definition bump :: "counts \<Rightarrow> string \<Rightarrow> counts" where
  "bump acc k =
     (let v = (case map_of acc k of
                 Some (Count n) \<Rightarrow> Count (Suc n)
               | Some Junk \<Rightarrow> Junk
               | None \<Rightarrow> if k \<in> set object_prototype_keys then Junk else Count 1)
      in if k = ''__proto__'' then acc else assign acc k v)"

definition entity_type_key :: "json \<Rightarrow> string" where
  "entity_type_key entity = js_String (js_or (get_prop entity ''type'') (JStr ''Unknown''))"

definition relationship_type_key :: "json \<Rightarrow> string" where
  "relationship_type_key rel = js_String (rel_type rel)"

definition getEntityTypeCounts :: "json list \<Rightarrow> counts" where
  "getEntityTypeCounts entities = fold (\<lambda>entity acc. bump acc (entity_type_key entity)) entities []"

definition getRelationshipTypeCounts :: "json list \<Rightarrow> counts" where
  "getRelationshipTypeCounts relationships =
     fold (\<lambda>rel acc. bump acc (relationship_type_key rel)) relationships []"

definition tally_throws :: "json list \<Rightarrow> json list \<Rightarrow> bool" where
  "tally_throws entities relationships =
     ((\<exists>e\<in>set entities. String_throws (js_or (get_prop e ''type'') (JStr ''Unknown''))) \<or>
      (\<exists>r\<in>set relationships. String_throws (rel_type r)))"

text \<open>The sum of the numeric counts of a legend section.\<close>

fun count_of :: "count_val \<Rightarrow> nat" where
  "count_of (Count n) = n"
| "count_of Junk = 0"

definition sum_counts :: "counts \<Rightarrow> nat" where
  "sum_counts acc = sum_list (map (\<lambda>kv. count_of (snd kv)) acc)"

record stats =
  stat_nodes :: nat
  stat_edges :: nat
  entityTypes :: counts
  relationshipTypes :: counts

section \<open>The component's mutable state and its effect\<close>

text \<open>
  \<open>cyRef.current\<close> holds the identity of a cytoscape instance or null. What the component
  does to the rendering library is recorded as a trace of events; an instance is live from
  its creation to its destruction. \<open>timers\<close> holds the pending \<open>setTimeout\<close> callbacks, each
  tagged with the instance whose mount scheduled it (the callback itself reads only
  \<open>cyRef\<close>). The console keeps the level and the text of each call.
\<close>

datatype level = LogL | WarnL | ErrorL

datatype cy_event =
    Created nat "node list" "edge list" string
  | Destroyed nat
  | Fitted nat

record rect =
  width :: real
  height :: real

record view =
  cyRef :: "nat option"
  next_instance :: nat
  events :: "cy_event list"
  console :: "(level \<times> string) list"
  stats_state :: "stats option"
  timers :: "nat list"

definition init_view :: view where
  "init_view = \<lparr> cyRef = None, next_instance = 0, events = [], console = [],
                 stats_state = None, timers = [] \<rparr>"

fun live_step :: "cy_event \<Rightarrow> nat list \<Rightarrow> nat list" where
  "live_step (Created c ns es l) xs = xs @ [c]"
| "live_step (Destroyed c) xs = removeAll c xs"
| "live_step (Fitted c) xs = xs"

definition live :: "cy_event list \<Rightarrow> nat list" where
  "live evs = fold live_step evs []"

definition say :: "level \<Rightarrow> string \<Rightarrow> view \<Rightarrow> view" where
  "say l msg s = s\<lparr> console := console s @ [(l, msg)] \<rparr>"

text \<open>
  Lines 31 to 40. The library's \<open>destroy\<close> is taken to return; were it to throw, the
  catch would warn and the reference would be cleared all the same.
\<close>

definition destroy_previous :: "view \<Rightarrow> view" where
  "destroy_previous s =
     (case cyRef s of
        None \<Rightarrow> s
      | Some c \<Rightarrow>
          (say LogL ''Destroying previous cytoscape instance'' s)
            \<lparr> events := events s @ [Destroyed c], cyRef := None \<rparr>)"

datatype outcome =
    Returned_early
  | Invalid_entities
  | Invalid_relationships
  | Threw js_error
  | Zero_dimensions
  | Create_failed
  | Tally_threw nat
  | Mounted nat

text \<open>Lines 84 to 98: the console lines between the edge filter and the dimension check.\<close>

definition report_processed :: "edge list \<Rightarrow> view \<Rightarrow> view" where
  "report_processed eds s =
     (let s1 = say LogL ''Sample node:''
                 (say LogL ''Processed edges (after validation):''
                   (say LogL ''Processed nodes:'' s));
          s2 = (if length eds > 0 then say LogL ''Sample edge:'' s1 else s1)
      in say LogL ''Container dimensions:'' s2)"

text \<open>
  Lines 105 to 209: the try block. \<open>ok\<close> says whether the \<open>cytoscape(...)\<close> constructor
  returns (the environment's choice); when it throws, the catch logs and nothing is kept.
  When it returns, the instance exists and, after the handlers are attached, the
  reference holds it (line 191). The two tallies are computed next, as arguments of
  \<open>setStats\<close>: when one throws, the catch logs the same error, the instance stays live and
  referenced, and neither the statistics nor the timer are set.
\<close>

definition create_instance ::
  "json list \<Rightarrow> json list \<Rightarrow> node list \<Rightarrow> edge list \<Rightarrow> string \<Rightarrow> bool \<Rightarrow> view \<Rightarrow> outcome \<times> view" where
  "create_instance entities relationships ns eds layout ok s =
     (if \<not> ok then (Create_failed, say ErrorL ''Error creating cytoscape graph:'' s)
      else
        let c = next_instance s;
            s1 = say LogL ''Cytoscape instance created successfully''
                   (s\<lparr> next_instance := Suc c, events := events s @ [Created c ns eds layout] \<rparr>);
            s2 = s1\<lparr> cyRef := Some c \<rparr>
        in if tally_throws entities relationships
           then (Tally_threw c, say ErrorL ''Error creating cytoscape graph:'' s2)
           else (Mounted c,
                 s2\<lparr> stats_state := Some \<lparr> stat_nodes = length ns,
                                           stat_edges = length eds,
                                           entityTypes = getEntityTypeCounts entities,
                                           relationshipTypes = getRelationshipTypeCounts relationships \<rparr>,
                     timers := timers s2 @ [c] \<rparr>))"

text \<open>Lines 42 to 103, once both containers are known to be arrays.\<close>

definition build_and_mount ::
  "json list \<Rightarrow> json list \<Rightarrow> rect \<Rightarrow> string \<Rightarrow> bool \<Rightarrow> view \<Rightarrow> outcome \<times> view" where
  "build_and_mount entities relationships r layout ok s =
     (case nodes_of entities of
        Inl e \<Rightarrow> (Threw e, s)
      | Inr ns \<Rightarrow>
          let s1 = say LogL ''Valid node IDs:'' s in
          (case mapped_edges (validNodeIds ns) relationships of
             Inl e \<Rightarrow> (Threw e, s1)
           | Inr ms \<Rightarrow>
               let s2 = s1\<lparr> console := console s1 @
                               map (\<lambda>m. (WarnL, skip_message m)) (filter (\<lambda>m. \<not> valid m) ms) \<rparr>;
                   eds = map data (filter valid ms);
                   s3 = report_processed eds s2
               in if width r = 0 \<or> height r = 0
                  then (Zero_dimensions,
                        say ErrorL ''Container has zero dimensions! Cannot render graph.'' s3)
                  else create_instance entities relationships ns eds layout ok s3))"

text \<open>
  The effect of the first component (lines 13 to 222), run with the payload
  \<open>graphData\<close>, the container's rectangle (\<open>None\<close> when \<open>containerRef.current\<close> is null)
  and the layout name. The first test \<open>!graphData || !containerRef.current\<close> is written as
  two branches with the same result.
\<close>

definition effect :: "view \<Rightarrow> json \<Rightarrow> rect option \<Rightarrow> string \<Rightarrow> bool \<Rightarrow> outcome \<times> view" where
  "effect s graphData container layout ok =
     (case container of
        None \<Rightarrow> (Returned_early, say LogL ''Early return - missing graphData or container'' s)
      | Some r \<Rightarrow>
          if \<not> truthy graphData
          then (Returned_early, say LogL ''Early return - missing graphData or container'' s)
          else
            let s1 = say LogL ''Creating graph with data:'' s;
                ents = get_prop graphData ''entities'';
                rels = get_prop graphData ''relationships''
            in if \<not> truthy ents \<or> \<not> isArray ents
               then (Invalid_entities, say ErrorL ''Invalid graphData.entities:'' s1)
               else if \<not> truthy rels \<or> \<not> isArray rels
               then (Invalid_relationships, say ErrorL ''Invalid graphData.relationships:'' s1)
               else build_and_mount (elems ents) (elems rels) r layout ok (destroy_previous s1))"

text \<open>The cleanup the effect returns (lines 211 to 221).\<close>

definition cleanup :: "view \<Rightarrow> view" where
  "cleanup s =
     (let s1 = say LogL ''Cleanup: destroying cytoscape instance'' s
      in case cyRef s1 of
           None \<Rightarrow> s1
         | Some c \<Rightarrow> s1\<lparr> events := events s1 @ [Destroyed c], cyRef := None \<rparr>)"

text \<open>The callback of \<open>setTimeout\<close> (lines 201 to 205), run for the oldest pending timer.\<close>

definition fire_timer :: "view \<Rightarrow> view" where
  "fire_timer s =
     (case timers s of
        [] \<Rightarrow> s
      | t # ts \<Rightarrow>
          (case cyRef s of
             None \<Rightarrow> s\<lparr> timers := ts \<rparr>
           | Some c \<Rightarrow> s\<lparr> timers := ts, events := events s @ [Fitted c] \<rparr>))"

text \<open>
  \<open>exportGraph(format)\<close> (lines 281 to 298): what is offered for download. For the JSON
  format it is the value handed to \<open>JSON.stringify\<close>.
\<close>

datatype download = Png_of nat | Json_of json

definition exportGraph :: "view \<Rightarrow> json \<Rightarrow> string \<Rightarrow> download option" where
  "exportGraph s graphData format =
     (case cyRef s of
        None \<Rightarrow> None
      | Some c \<Rightarrow>
          if format = ''png'' then Some (Png_of c)
          else if format = ''json'' then Some (Json_of graphData)
          else None)"

text \<open>What React may do to a mounted component, in any order.\<close>

datatype op = Mount json "rect option" string bool | Unmount | Timer

fun apply_op :: "op \<Rightarrow> view \<Rightarrow> view" where
  "apply_op (Mount g c l ok) s = snd (effect s g c l ok)"
| "apply_op Unmount s = cleanup s"
| "apply_op Timer s = fire_timer s"

definition run :: "op list \<Rightarrow> view \<Rightarrow> view" where
  "run ops s = fold apply_op ops s"

section \<open>The second component of the file\<close>

text \<open>
  The second component (lines 505 to 852) maps the payload with optional chaining and
  without coercion, defaults for name and type, or any check of the endpoints.
\<close>

record node2 =
  node2_id :: json
  node2_label :: json
  node2_type :: json
  node2_properties :: json
  node2_mentions :: json

record edge2 =
  edge2_id :: string
  edge2_source :: json
  edge2_target :: json
  edge2_label :: json
  edge2_type :: json

definition node2_of :: "json \<Rightarrow> node2" where
  "node2_of entity =
     \<lparr> node2_id = get_prop entity ''id'',
       node2_label = get_prop entity ''name'',
       node2_type = get_prop entity ''type'',
       node2_properties = js_or (get_prop entity ''properties'') (JObj []),
       node2_mentions = js_or (get_prop entity ''mentions'') (JNum 1) \<rparr>"

definition edge2_of :: "nat \<times> json \<Rightarrow> edge2" where
  "edge2_of p =
     \<lparr> edge2_id = ''edge-'' @ show_nat (fst p),
       edge2_source = get_prop (snd p) ''source'',
       edge2_target = get_prop (snd p) ''target'',
       edge2_label = get_prop (snd p) ''type'',
       edge2_type = get_prop (snd p) ''type'' \<rparr>"

definition nodes2_of :: "json list \<Rightarrow> js_error + node2 list" where
  "nodes2_of entities =
     map_throwing (\<lambda>e. if nullish e then Inl TypeError else Inr (node2_of e)) entities"

definition edges2_of :: "json list \<Rightarrow> js_error + edge2 list" where
  "edges2_of relationships =
     map_throwing (\<lambda>p. if nullish (snd p) then Inl TypeError else Inr (edge2_of p))
       (enumerate 0 relationships)"

section \<open>Notions used to state the properties\<close>

text \<open>The instances live after a trace prefix never number more than one.\<close>

definition never_two :: "cy_event list \<Rightarrow> bool" where
  "never_two evs = (\<forall>n. length (live (take n evs)) \<le> 1)"

text \<open>The reference and the library agree: the live instances are the one in \<open>cyRef\<close>.\<close>

definition consistent :: "view \<Rightarrow> bool" where
  "consistent s = (live (events s) = (case cyRef s of None \<Rightarrow> [] | Some c \<Rightarrow> [c]))"

text \<open>The event of destroying what the reference holds, if it holds anything.\<close>

definition destroyed :: "nat option \<Rightarrow> cy_event list" where
  "destroyed r = (case r of None \<Rightarrow> [] | Some c \<Rightarrow> [Destroyed c])"

text \<open>The texts of the warnings on the console.\<close>

definition warnings :: "(level \<times> string) list \<Rightarrow> string list" where
  "warnings c = map snd (filter (\<lambda>e. fst e = WarnL) c)"

text \<open>A payload the effect builds elements from: both containers arrays, no null element.\<close>

definition payload_ok :: "json \<Rightarrow> bool" where
  "payload_ok g =
     (truthy g \<and> isArray (get_prop g ''entities'') \<and> isArray (get_prop g ''relationships'') \<and>
      list_all (\<lambda>e. \<not> nullish e) (elems (get_prop g ''entities'')) \<and>
      list_all (\<lambda>r. \<not> nullish r) (elems (get_prop g ''relationships'')))"

text \<open>A payload that passes the tests of lines 14 to 29, with a container present.\<close>

definition containers_ok :: "json \<Rightarrow> bool" where
  "containers_ok g =
     (truthy g \<and> isArray (get_prop g ''entities'') \<and> isArray (get_prop g ''relationships''))"

text \<open>Entities and relationships on which neither map callback throws.\<close>

definition buildable :: "json list \<Rightarrow> json list \<Rightarrow> bool" where
  "buildable entities relationships =
     (list_all (\<lambda>e. \<not> node_throws e) entities \<and> list_all (\<lambda>r. \<not> rel_throws r) relationships)"

text \<open>An accumulator whose keys are pairwise distinct and whose values are all numbers.\<close>

definition numeric :: "counts \<Rightarrow> bool" where
  "numeric acc = (distinct (map fst acc) \<and> list_all (\<lambda>kv. snd kv \<noteq> Junk) acc)"

definition is_created :: "cy_event \<Rightarrow> bool" where
  "is_created e = (case e of Created c ns es l \<Rightarrow> True | _ \<Rightarrow> False)"

section \<open>Example payloads\<close>

text \<open>The entities and relationships of the specification's first example.\<close>

definition alice :: json where
  "alice = JObj [(''id'', JStr ''a''), (''name'', JStr ''Alice''), (''type'', JStr ''PERSON'')]"

definition acme :: json where
  "acme = JObj [(''id'', JStr ''b''), (''name'', JStr ''Acme''), (''type'', JStr ''ORGANIZATION'')]"

definition works_at :: json where
  "works_at = JObj [(''source'', JStr ''a''), (''target'', JStr ''b''), (''type'', JStr ''works_at'')]"

definition dangling :: json where
  "dangling = JObj [(''source'', JStr ''a''), (''target'', JStr ''zzz''), (''type'', JStr ''bad'')]"

definition example_payload :: json where
  "example_payload =
     JObj [(''entities'', JArr [alice, acme]), (''relationships'', JArr [works_at, dangling])]"

definition twin_first :: json where
  "twin_first = JObj [(''id'', JStr ''x''), (''name'', JStr ''First'')]"

definition twin_second :: json where
  "twin_second = JObj [(''id'', JStr ''x''), (''name'', JStr ''Second'')]"

definition twins_payload :: json where
  "twins_payload =
     JObj [(''entities'', JArr [twin_first, twin_second]), (''relationships'', JArr [dangling])]"

definition canvas :: rect where
  "canvas = \<lparr> width = 800, height = 600 \<rparr>"

definition collapsed :: rect where
  "collapsed = \<lparr> width = 800, height = 0 \<rparr>"

section \<open>Properties of the graph elements\<close>

lemma map_throwing_guard:
  "map_throwing (\<lambda>x. if bad x then Inl TypeError else Inr (g x)) xs =
     (if \<exists>x\<in>set xs. bad x then Inl TypeError else Inr (map g xs))"
  by (induction xs) auto

lemma nodes_of_eq:
  "nodes_of entities =
     (if \<exists>e\<in>set entities. node_throws e then Inl TypeError else Inr (map node_of entities))"
  unfolding nodes_of_def node_cb_def by (rule map_throwing_guard)

lemma mapped_edges_eq:
  "mapped_edges ids rels =
     (if \<exists>r\<in>set rels. rel_throws r then Inl TypeError
      else Inr (map (\<lambda>p. edge_of ids (fst p) (snd p)) (enumerate 0 rels)))"
proof -
  have "snd ` set (enumerate 0 rels) = set rels"
    by (metis map_snd_enumerate set_map)
  then have same: "(\<exists>p\<in>set (enumerate 0 rels). rel_throws (snd p)) = (\<exists>r\<in>set rels. rel_throws r)"
    by (metis (no_types, lifting) image_iff)
  have "mapped_edges ids rels =
          (if \<exists>p\<in>set (enumerate 0 rels). rel_throws (snd p) then Inl TypeError
           else Inr (map (\<lambda>p. edge_of ids (fst p) (snd p)) (enumerate 0 rels)))"
    unfolding mapped_edges_def edge_cb_def
    by (rule map_throwing_guard)
  then show ?thesis
    by (simp only: same)
qed

lemma enumerate_as_upt:
  "enumerate 0 xs = map (\<lambda>k. (k, xs ! k)) [0..<length xs]"
  by (rule nth_equalityI) (simp_all add: nth_enumerate_eq)


lemma graph_elements_eq:
  "graph_elements entities rels =
     (if (\<exists>e\<in>set entities. node_throws e) \<or> (\<exists>r\<in>set rels. rel_throws r) then Inl TypeError
      else Inr \<lparr> nodes = map node_of entities,
                 edges = map data (filter valid
                           (map (\<lambda>k. edge_of (validNodeIds (map node_of entities)) k (rels ! k))
                              [0..<length rels])),
                 skipped = map skip_message (filter (\<lambda>m. \<not> valid m)
                           (map (\<lambda>k. edge_of (validNodeIds (map node_of entities)) k (rels ! k))
                              [0..<length rels])) \<rparr>)"
  unfolding graph_elements_def nodes_of_eq mapped_edges_eq enumerate_as_upt
  by (simp add: comp_def)

lemma graph_elements_InrD:
  assumes "graph_elements entities rels = Inr el"
  shows "nodes el = map node_of entities"
    and "edges el = map data (filter valid
                           (map (\<lambda>k. edge_of (validNodeIds (map node_of entities)) k (rels ! k))
                              [0..<length rels]))"
    and "skipped el = map skip_message (filter (\<lambda>m. \<not> valid m)
                           (map (\<lambda>k. edge_of (validNodeIds (map node_of entities)) k (rels ! k))
                              [0..<length rels]))"
    and "\<forall>e\<in>set entities. \<not> node_throws e" and "\<forall>r\<in>set rels. \<not> rel_throws r"
  using assms unfolding graph_elements_eq by (auto split: if_splits)

lemma graph_elements_buildable:
  "(\<exists>el. graph_elements entities rels = Inr el) = buildable entities rels"
  unfolding graph_elements_eq buildable_def list_all_iff by auto

lemma graph_elements_not_buildable:
  "\<not> buildable entities rels \<Longrightarrow> graph_elements entities rels = Inl TypeError"
  unfolding graph_elements_eq buildable_def list_all_iff by auto

lemma digit_char_inj: "a < 10 \<Longrightarrow> b < 10 \<Longrightarrow> digit_char a = digit_char b \<Longrightarrow> a = b"
proof -
  assume a: "a < 10" and b: "b < 10" and eq: "digit_char a = digit_char b"
  have d: "distinct ''0123456789''" by simp
  have l: "length ''0123456789'' = 10" by simp
  from eq have "''0123456789'' ! a = ''0123456789'' ! b" by (simp add: digit_char_def)
  with d l a b show "a = b" by (metis nth_eq_iff_index_eq)
qed

lemma show_nat_nonempty: "show_nat n \<noteq> []"
  by (subst show_nat.simps) simp

lemma show_nat_inj: "show_nat n = show_nat m \<Longrightarrow> n = m"
proof (induction n arbitrary: m rule: show_nat.induct)
  case (1 n)
  show ?case
  proof (cases "n < 10")
    case True
    note n = this
    show ?thesis
    proof (cases "m < 10")
      case True
      with n "1.prems" show ?thesis
        by (simp add: show_nat.simps[of n] show_nat.simps[of m] digit_char_inj)
    next
      case False
      with n "1.prems" show_nat_nonempty[of "m div 10"] show ?thesis
        by (simp add: show_nat.simps[of n] show_nat.simps[of m])
    qed
  next
    case False
    note n = this
    show ?thesis
    proof (cases "m < 10")
      case True
      with n "1.prems" show_nat_nonempty[of "n div 10"] show ?thesis
        by (simp add: show_nat.simps[of n] show_nat.simps[of m])
    next
      case False
      with n "1.prems" have eq: "show_nat (n div 10) = show_nat (m div 10)"
        and dg: "digit_char (n mod 10) = digit_char (m mod 10)"
        by (simp_all add: show_nat.simps[of n] show_nat.simps[of m])
      from "1.IH"[OF n eq] have "n div 10 = m div 10" .
      moreover from dg have "n mod 10 = m mod 10" by (simp add: digit_char_inj)
      ultimately show ?thesis by (metis div_mult_mod_eq)
    qed
  qed
qed


lemma example_buildable: "buildable [alice, acme] [works_at, dangling]"
  by code_simp

lemma data_edge_of [simp]:
  "edge_id (data (edge_of ids k r)) = ''edge-'' @ show_nat k"
  "source (data (edge_of ids k r)) = rel_source r"
  "target (data (edge_of ids k r)) = rel_target r"
  "edge_label (data (edge_of ids k r)) = rel_type r"
  "edge_type (data (edge_of ids k r)) = rel_type r"
  "valid (edge_of ids k r) = (rel_source r \<in> ids \<and> rel_target r \<in> ids)"
  by (simp_all add: edge_of_def)

lemma edge_id_inj: "''edge-'' @ show_nat j = ''edge-'' @ show_nat k \<Longrightarrow> j = k"
  by (simp add: show_nat_inj)

lemma rel_endpoint_literal:
  "get_prop r ''source'' = JStr ''undefined'' \<Longrightarrow> rel_source r = ''undefined''"
  "get_prop r ''target'' = JStr ''undefined'' \<Longrightarrow> rel_target r = ''undefined''"
  by (simp_all add: rel_source_def rel_target_def js_or_def)

text \<open>
  The first component does what C1 says. Whenever the elements are built, every edge
  kept has both endpoints among the ids of the nodes built from the same payload, and is
  the mapping of one input relationship, with that relationship's own resolved endpoints
  and the id of its input position. Nodes come from the entities only. A relationship
  with an endpoint that is no node id is warned about and no kept edge carries its id.
\<close>

theorem materialized_edges_resolve:
  assumes "graph_elements entities relationships = Inr el"
  shows "(\<forall>e\<in>set (edges el).
            source e \<in> validNodeIds (nodes el) \<and> target e \<in> validNodeIds (nodes el) \<and>
            (\<exists>k<length relationships.
               edge_id e = ''edge-'' @ show_nat k \<and>
               source e = rel_source (relationships ! k) \<and>
               target e = rel_target (relationships ! k)))
       \<and> nodes el = map node_of entities
       \<and> (\<forall>k<length relationships.
            rel_source (relationships ! k) \<notin> validNodeIds (nodes el) \<or>
            rel_target (relationships ! k) \<notin> validNodeIds (nodes el) \<longrightarrow>
              skip_message (edge_of (validNodeIds (nodes el)) k (relationships ! k)) \<in> set (skipped el) \<and>
              (\<forall>e\<in>set (edges el). edge_id e \<noteq> ''edge-'' @ show_nat k))"
proof -
  note D = graph_elements_InrD[OF assms]
  let ?ids = "validNodeIds (nodes el)"
  have ids: "validNodeIds (map node_of entities) = ?ids" by (simp add: D(1))
  have kept: "\<And>e. e \<in> set (edges el) \<Longrightarrow>
      \<exists>k<length relationships. e = data (edge_of ?ids k (relationships ! k)) \<and>
        valid (edge_of ?ids k (relationships ! k))"
    unfolding D(2) ids by auto
  have one: "\<forall>e\<in>set (edges el).
            source e \<in> ?ids \<and> target e \<in> ?ids \<and>
            (\<exists>k<length relationships.
               edge_id e = ''edge-'' @ show_nat k \<and>
               source e = rel_source (relationships ! k) \<and>
               target e = rel_target (relationships ! k))"
  proof
    fix e assume "e \<in> set (edges el)"
    from kept[OF this] obtain k where k: "k < length relationships"
      and e: "e = data (edge_of ?ids k (relationships ! k))"
      and v: "valid (edge_of ?ids k (relationships ! k))" by blast
    from v have "source e \<in> ?ids" "target e \<in> ?ids" by (simp_all add: e)
    moreover have "edge_id e = ''edge-'' @ show_nat k \<and>
               source e = rel_source (relationships ! k) \<and>
               target e = rel_target (relationships ! k)" by (simp add: e)
    ultimately show "source e \<in> ?ids \<and> target e \<in> ?ids \<and>
            (\<exists>k<length relationships.
               edge_id e = ''edge-'' @ show_nat k \<and>
               source e = rel_source (relationships ! k) \<and>
               target e = rel_target (relationships ! k))"
      using k by blast
  qed
  have three: "\<forall>k<length relationships.
            rel_source (relationships ! k) \<notin> ?ids \<or> rel_target (relationships ! k) \<notin> ?ids \<longrightarrow>
              skip_message (edge_of ?ids k (relationships ! k)) \<in> set (skipped el) \<and>
              (\<forall>e\<in>set (edges el). edge_id e \<noteq> ''edge-'' @ show_nat k)"
  proof (intro allI impI)
    fix k assume k: "k < length relationships"
      and bad: "rel_source (relationships ! k) \<notin> ?ids \<or> rel_target (relationships ! k) \<notin> ?ids"
    then have nv: "\<not> valid (edge_of ?ids k (relationships ! k))" by simp
    have "edge_of ?ids k (relationships ! k) \<in>
            set (filter (\<lambda>m. \<not> valid m)
                   (map (\<lambda>k. edge_of ?ids k (relationships ! k)) [0..<length relationships]))"
      using k nv by simp
    then have a: "skip_message (edge_of ?ids k (relationships ! k)) \<in> set (skipped el)"
      unfolding D(3) ids by (metis image_eqI set_map)
    have b: "\<forall>e\<in>set (edges el). edge_id e \<noteq> ''edge-'' @ show_nat k"
    proof
      fix e assume "e \<in> set (edges el)"
      from kept[OF this] obtain j where
        e: "e = data (edge_of ?ids j (relationships ! j))"
        and v: "valid (edge_of ?ids j (relationships ! j))" by blast
      show "edge_id e \<noteq> ''edge-'' @ show_nat k"
      proof
        assume "edge_id e = ''edge-'' @ show_nat k"
        then have "j = k" by (simp add: e show_nat_inj)
        with v nv show False by simp
      qed
    qed
    from a b show "skip_message (edge_of ?ids k (relationships ! k)) \<in> set (skipped el) \<and>
              (\<forall>e\<in>set (edges el). edge_id e \<noteq> ''edge-'' @ show_nat k)" ..
  qed
  from one D(1) three show ?thesis by blast
qed

theorem materialized_edges_resolve_witness:
  "\<exists>el. graph_elements [alice, acme] [works_at, dangling] = Inr el \<and>
        list_all (\<lambda>e. source e \<in> validNodeIds (nodes el) \<and> target e \<in> validNodeIds (nodes el)) (edges el) \<and>
        length (edges el) = 1 \<and> skipped el = [''Skipping invalid edge: a -> zzz'']"
proof -
  let ?el = "\<lparr> nodes = map node_of [alice, acme],
           edges = [data (edge_of (validNodeIds (map node_of [alice, acme])) 0 works_at)],
           skipped = [''Skipping invalid edge: a -> zzz''] \<rparr>"
  have g: "graph_elements [alice, acme] [works_at, dangling] = Inr ?el"
    by code_simp
  from materialized_edges_resolve[OF g] have
    "\<forall>e\<in>set (edges ?el). source e \<in> validNodeIds (nodes ?el) \<and> target e \<in> validNodeIds (nodes ?el)"
    by blast
  then have h: "list_all (\<lambda>e. source e \<in> validNodeIds (nodes ?el) \<and> target e \<in> validNodeIds (nodes ?el)) (edges ?el)"
    unfolding list_all_iff .
  show ?thesis
  proof (intro exI conjI)
    show "graph_elements [alice, acme] [works_at, dangling] = Inr ?el" by (rule g)
    show "list_all (\<lambda>e. source e \<in> validNodeIds (nodes ?el) \<and> target e \<in> validNodeIds (nodes ?el)) (edges ?el)"
      by (rule h)
    show "length (edges ?el) = 1" by simp
    show "skipped ?el = [''Skipping invalid edge: a -> zzz'']" by simp
  qed
qed

text \<open>
  C1. The second component of the file does not do what C1 says and what the first
  component does: it has no check of the endpoints. With no entities and one
  relationship it builds no node and still hands the library the edge from a to zzz.
\<close>

theorem second_component_keeps_dangling_edge:
  "nodes2_of [] = Inr [] \<and>
   edges2_of [dangling] =
     Inr [\<lparr> edge2_id = ''edge-0'', edge2_source = JStr ''a'', edge2_target = JStr ''zzz'',
             edge2_label = JStr ''bad'', edge2_type = JStr ''bad'' \<rparr>]"
  by code_simp

text \<open>
  C6, as stated, fails: two entities that resolve to the same identifier give two nodes
  with that identifier, the first with the first entity's attributes.
\<close>

theorem same_id_entities_both_kept:
  "graph_elements [JObj [(''id'', JStr ''x''), (''name'', JStr ''First'')],
                   JObj [(''id'', JStr ''x''), (''name'', JStr ''Second'')]] [] =
     Inr \<lparr> nodes = [\<lparr> node_id = ''x'', node_label = JStr ''First'', node_type = JStr ''default'',
                       node_properties = JObj [], node_mentions = JNum 1 \<rparr>,
                     \<lparr> node_id = ''x'', node_label = JStr ''Second'', node_type = JStr ''default'',
                       node_properties = JObj [], node_mentions = JNum 1 \<rparr>],
           edges = [], skipped = [] \<rparr>"
  by code_simp

text \<open>
  C6, as amended. The node sequence holds one node per input entity, in input order,
  each built from its own entity: as many nodes carry an identifier as entities resolve to
  it. Only the set of valid ids holds the identifier once.
\<close>

theorem one_node_per_entity:
  assumes "graph_elements entities relationships = Inr el"
  shows "length (nodes el) = length entities
       \<and> (\<forall>i<length entities. nodes el ! i = node_of (entities ! i))
       \<and> (\<forall>x. length (filter (\<lambda>n. node_id n = x) (nodes el)) =
                length (filter (\<lambda>e. node_id (node_of e) = x) entities))
       \<and> (\<forall>x. x \<in> validNodeIds (nodes el) \<longleftrightarrow> (\<exists>e\<in>set entities. node_id (node_of e) = x))"
proof -
  note D = graph_elements_InrD[OF assms]
  have a: "length (nodes el) = length entities" by (simp add: D(1))
  have b: "\<forall>i<length entities. nodes el ! i = node_of (entities ! i)" by (simp add: D(1))
  have c: "\<forall>x. length (filter (\<lambda>n. node_id n = x) (nodes el)) =
                length (filter (\<lambda>e. node_id (node_of e) = x) entities)"
    by (simp add: D(1) filter_map comp_def)
  have d: "\<forall>x. x \<in> validNodeIds (nodes el) \<longleftrightarrow> (\<exists>e\<in>set entities. node_id (node_of e) = x)"
    by (auto simp: D(1) validNodeIds_def)
  from a b c d show ?thesis by blast
qed

theorem one_node_per_entity_witness:
  "\<exists>el. graph_elements [JObj [(''id'', JStr ''x''), (''name'', JStr ''First'')],
                         JObj [(''id'', JStr ''x''), (''name'', JStr ''Second'')]] [] = Inr el \<and>
        length (nodes el) = 2 \<and> length (filter (\<lambda>n. node_id n = ''x'') (nodes el)) = 2"
proof -
  let ?es = "[JObj [(''id'', JStr ''x''), (''name'', JStr ''First'')],
              JObj [(''id'', JStr ''x''), (''name'', JStr ''Second'')]]"
  let ?el = "\<lparr> nodes = map node_of ?es, edges = [], skipped = [] \<rparr>"
  have g: "graph_elements ?es [] = Inr ?el" by code_simp
  have f: "length (filter (\<lambda>e. node_id (node_of e) = ''x'') ?es) = 2" by code_simp
  from one_node_per_entity[OF g] have
    "length (nodes ?el) = length ?es \<and>
     length (filter (\<lambda>n. node_id n = ''x'') (nodes ?el)) =
       length (filter (\<lambda>e. node_id (node_of e) = ''x'') ?es)"
    by blast
  then have h: "length (nodes ?el) = 2" "length (filter (\<lambda>n. node_id n = ''x'') (nodes ?el)) = 2"
    unfolding f by simp_all
  show ?thesis
  proof (intro exI conjI)
    show "graph_elements ?es [] = Inr ?el" by (rule g)
    show "length (nodes ?el) = 2" by (rule h(1))
    show "length (filter (\<lambda>n. node_id n = ''x'') (nodes ?el)) = 2" by (rule h(2))
  qed
qed

text \<open>
  C10, as stated, fails: a name that is present but falsy is what gets coerced, so the
  identifier is null for a null name and the empty string for an empty name.
\<close>

theorem falsy_name_is_not_undefined:
  "\<not> truthy (get_prop (JObj [(''name'', JNull)]) ''id'') \<and>
   \<not> truthy (get_prop (JObj [(''name'', JNull)]) ''name'') \<and>
   node_id (node_of (JObj [(''name'', JNull)])) = ''null'' \<and>
   \<not> truthy (get_prop (JObj [(''id'', JNum 0), (''name'', JStr [])]) ''id'') \<and>
   \<not> truthy (get_prop (JObj [(''id'', JNum 0), (''name'', JStr [])]) ''name'') \<and>
   node_id (node_of (JObj [(''id'', JNum 0), (''name'', JStr [])])) = []"
  by code_simp

text \<open>
  C10, as amended. An entity whose id is absent or falsy and whose name is absent resolves
  to the identifier undefined. The set of valid ids then holds undefined, each such entity
  keeps a node of its own, and a relationship whose source and target are the string
  undefined is kept as an edge. Whenever the id is falsy the identifier is the string
  coercion of the name, whatever the name is.
\<close>

theorem absent_name_resolves_to_undefined:
  assumes "graph_elements entities relationships = Inr el"
    and "e \<in> set entities"
    and "\<not> truthy (get_prop e ''id'')"
    and "get_prop e ''name'' = JUndefined"
  shows "node_id (node_of e) = ''undefined''
       \<and> ''undefined'' \<in> validNodeIds (nodes el)
       \<and> length (filter (\<lambda>n. node_id n = ''undefined'') (nodes el)) =
           length (filter (\<lambda>e. node_id (node_of e) = ''undefined'') entities)
       \<and> (\<forall>k<length relationships.
            get_prop (relationships ! k) ''source'' = JStr ''undefined'' \<and>
            get_prop (relationships ! k) ''target'' = JStr ''undefined'' \<longrightarrow>
              \<lparr> edge_id = ''edge-'' @ show_nat k, source = ''undefined'', target = ''undefined'',
                edge_label = rel_type (relationships ! k),
                edge_type = rel_type (relationships ! k) \<rparr> \<in> set (edges el))
       \<and> (\<forall>x. \<not> truthy (get_prop x ''id'') \<longrightarrow>
              node_id (node_of x) = js_String (get_prop x ''name''))"
proof -
  note D = graph_elements_InrD[OF assms(1)]
  have g: "\<forall>x. \<not> truthy (get_prop x ''id'') \<longrightarrow>
              node_id (node_of x) = js_String (get_prop x ''name'')"
    by (simp add: node_of_def js_or_def)
  have a: "node_id (node_of e) = ''undefined''"
    using assms(3,4) by (simp add: node_of_def js_or_def)
  have b: "''undefined'' \<in> validNodeIds (nodes el)"
    unfolding D(1) validNodeIds_def using assms(2) a by force
  have c: "length (filter (\<lambda>n. node_id n = ''undefined'') (nodes el)) =
           length (filter (\<lambda>e. node_id (node_of e) = ''undefined'') entities)"
    by (simp add: D(1) filter_map comp_def)
  have d: "\<forall>k<length relationships.
            get_prop (relationships ! k) ''source'' = JStr ''undefined'' \<and>
            get_prop (relationships ! k) ''target'' = JStr ''undefined'' \<longrightarrow>
              \<lparr> edge_id = ''edge-'' @ show_nat k, source = ''undefined'', target = ''undefined'',
                edge_label = rel_type (relationships ! k),
                edge_type = rel_type (relationships ! k) \<rparr> \<in> set (edges el)"
  proof (intro allI impI)
    fix k assume k: "k < length relationships"
      and u: "get_prop (relationships ! k) ''source'' = JStr ''undefined'' \<and>
              get_prop (relationships ! k) ''target'' = JStr ''undefined''"
    let ?ids = "validNodeIds (map node_of entities)"
    let ?m = "edge_of ?ids k (relationships ! k)"
    from u have st: "rel_source (relationships ! k) = ''undefined''"
      "rel_target (relationships ! k) = ''undefined''"
      by (simp_all add: rel_endpoint_literal)
    from b have "''undefined'' \<in> ?ids" by (simp add: D(1))
    then have v: "valid ?m" by (simp add: st)
    have "?m \<in> set (filter valid (map (\<lambda>k. edge_of ?ids k (relationships ! k)) [0..<length relationships]))"
      using k v by simp
    then have "data ?m \<in> set (edges el)"
      unfolding D(2) by (metis image_eqI set_map)
    moreover have "data ?m = \<lparr> edge_id = ''edge-'' @ show_nat k, source = ''undefined'', target = ''undefined'',
                edge_label = rel_type (relationships ! k),
                edge_type = rel_type (relationships ! k) \<rparr>"
      by (simp add: edge_of_def st)
    ultimately show "\<lparr> edge_id = ''edge-'' @ show_nat k, source = ''undefined'', target = ''undefined'',
                edge_label = rel_type (relationships ! k),
                edge_type = rel_type (relationships ! k) \<rparr> \<in> set (edges el)" by simp
  qed
  from a b c d g show ?thesis by blast
qed

theorem absent_name_resolves_to_undefined_witness:
  "\<exists>el. graph_elements [JObj [(''type'', JStr ''PERSON'')]]
               [JObj [(''source'', JStr ''undefined''), (''target'', JStr ''undefined'')]] = Inr el \<and>
        node_id (node_of (JObj [(''type'', JStr ''PERSON'')])) = ''undefined'' \<and>
        ''undefined'' \<in> validNodeIds (nodes el) \<and>
        length (edges el) = 1"
proof -
  let ?e = "JObj [(''type'', JStr ''PERSON'')]"
  let ?r = "JObj [(''source'', JStr ''undefined''), (''target'', JStr ''undefined'')]"
  let ?el = "\<lparr> nodes = [node_of ?e],
               edges = [data (edge_of (validNodeIds [node_of ?e]) 0 ?r)],
               skipped = [] \<rparr>"
  have g: "graph_elements [?e] [?r] = Inr ?el" by code_simp
  have m: "?e \<in> set [?e]" by simp
  have f: "\<not> truthy (get_prop ?e ''id'')" by simp
  have n: "get_prop ?e ''name'' = JUndefined" by simp
  from absent_name_resolves_to_undefined[OF g m f n]
  have h: "node_id (node_of ?e) = ''undefined''" "''undefined'' \<in> validNodeIds (nodes ?el)"
    by blast+
  show ?thesis
  proof (intro exI conjI)
    show "graph_elements [?e] [?r] = Inr ?el" by (rule g)
    show "node_id (node_of ?e) = ''undefined''" by (rule h(1))
    show "''undefined'' \<in> validNodeIds (nodes ?el)" by (rule h(2))
    show "length (edges ?el) = 1" by simp
  qed
qed

section \<open>Properties of the effect, the cleanup and the timer\<close>

lemma warnings_append [simp]: "warnings (a @ b) = warnings a @ warnings b"
  by (simp add: warnings_def)

lemma warnings_Cons [simp]:
  "warnings ((l, m) # c) = (if l = WarnL then m # warnings c else warnings c)"
  by (simp add: warnings_def)

lemma warnings_Nil [simp]: "warnings [] = []"
  by (simp add: warnings_def)

lemma warnings_warn [simp]: "warnings (map (\<lambda>m. (WarnL, m)) ms) = ms"
  by (induction ms) simp_all

lemma say_fields [simp]:
  "cyRef (say l m s) = cyRef s"
  "next_instance (say l m s) = next_instance s"
  "events (say l m s) = events s"
  "stats_state (say l m s) = stats_state s"
  "timers (say l m s) = timers s"
  "console (say l m s) = console s @ [(l, m)]"
  by (simp_all add: say_def)

lemma report_processed_fields [simp]:
  "cyRef (report_processed eds s) = cyRef s"
  "next_instance (report_processed eds s) = next_instance s"
  "events (report_processed eds s) = events s"
  "stats_state (report_processed eds s) = stats_state s"
  "timers (report_processed eds s) = timers s"
  by (simp_all add: report_processed_def Let_def)

lemma report_processed_warnings [simp]:
  "warnings (console (report_processed eds s)) = warnings (console s)"
  by (simp add: report_processed_def Let_def)

lemma destroy_previous_fields [simp]:
  "cyRef (destroy_previous s) = None"
  "next_instance (destroy_previous s) = next_instance s"
  "events (destroy_previous s) = events s @ destroyed (cyRef s)"
  "stats_state (destroy_previous s) = stats_state s"
  "timers (destroy_previous s) = timers s"
  "warnings (console (destroy_previous s)) = warnings (console s)"
  by (simp_all add: destroy_previous_def destroyed_def split: option.split)

lemma live_snoc [simp]: "live (evs @ [e]) = live_step e (live evs)"
  by (simp add: live_def)

lemma live_Nil [simp]: "live [] = []"
  by (simp add: live_def)

lemma never_two_Nil [simp]: "never_two []"
  by (simp add: never_two_def)

lemma never_two_snoc:
  assumes "never_two evs" and "length (live (evs @ [e])) \<le> 1"
  shows "never_two (evs @ [e])"
  unfolding never_two_def
proof
  fix n
  show "length (live (take n (evs @ [e]))) \<le> 1"
  proof (cases "n \<le> length evs")
    case True
    then have "take n (evs @ [e]) = take n evs" by simp
    with assms(1) show ?thesis by (simp add: never_two_def)
  next
    case False
    then have "take n (evs @ [e]) = evs @ [e]" by simp
    with assms(2) show ?thesis by simp
  qed
qed

text \<open>What building and mounting does to the reference, the trace and the timers.\<close>

lemma build_and_mount_ok:
  assumes "graph_elements es rs = Inr el"
  shows "build_and_mount es rs r layout ok s =
     (let s3 = report_processed (edges el)
                 ((say LogL ''Valid node IDs:'' s)
                    \<lparr> console := console s @ [(LogL, ''Valid node IDs:'')] @
                                   map (\<lambda>m. (WarnL, m)) (skipped el) \<rparr>)
      in if width r = 0 \<or> height r = 0
         then (Zero_dimensions,
               say ErrorL ''Container has zero dimensions! Cannot render graph.'' s3)
         else create_instance es rs (nodes el) (edges el) layout ok s3)"
proof -
  note D = graph_elements_InrD[OF assms]
  have n: "nodes_of es = Inr (nodes el)"
    using D(4) by (simp add: nodes_of_eq D(1))
  have m: "mapped_edges (validNodeIds (nodes el)) rs =
      Inr (map (\<lambda>k. edge_of (validNodeIds (map node_of es)) k (rs ! k)) [0..<length rs])"
    using D(5) by (simp add: mapped_edges_eq enumerate_as_upt comp_def D(1))
  show ?thesis
    by (simp add: build_and_mount_def n m Let_def D(2) D(3) comp_def)
qed

lemma build_and_mount_throw:
  assumes "graph_elements es rs = Inl e"
  shows "fst (build_and_mount es rs r layout ok s) = Threw TypeError"
    and "cyRef (snd (build_and_mount es rs r layout ok s)) = cyRef s"
    and "events (snd (build_and_mount es rs r layout ok s)) = events s"
    and "timers (snd (build_and_mount es rs r layout ok s)) = timers s"
    and "next_instance (snd (build_and_mount es rs r layout ok s)) = next_instance s"
  using assms
  by (auto simp: build_and_mount_def graph_elements_def Let_def nodes_of_eq mapped_edges_eq
      split: sum.splits if_splits)


lemma create_instance_fields:
  "fst (create_instance es rs ns eds layout ok s) =
     (if \<not> ok then Create_failed
      else if tally_throws es rs then Tally_threw (next_instance s)
      else Mounted (next_instance s))"
  "cyRef (snd (create_instance es rs ns eds layout ok s)) =
     (if ok then Some (next_instance s) else cyRef s)"
  "events (snd (create_instance es rs ns eds layout ok s)) =
     (if ok then events s @ [Created (next_instance s) ns eds layout] else events s)"
  "timers (snd (create_instance es rs ns eds layout ok s)) =
     (if ok \<and> \<not> tally_throws es rs then timers s @ [next_instance s] else timers s)"
  "next_instance (snd (create_instance es rs ns eds layout ok s)) =
     (if ok then Suc (next_instance s) else next_instance s)"
  "stats_state (snd (create_instance es rs ns eds layout ok s)) =
     (if ok \<and> \<not> tally_throws es rs
      then Some \<lparr> stat_nodes = length ns, stat_edges = length eds,
                   entityTypes = getEntityTypeCounts es,
                   relationshipTypes = getRelationshipTypeCounts rs \<rparr>
      else stats_state s)"
  "warnings (console (snd (create_instance es rs ns eds layout ok s))) = warnings (console s)"
  by (simp_all add: create_instance_def Let_def)

lemma create_instance_failed_console:
  "\<not> ok \<Longrightarrow> last (console (snd (create_instance es rs ns eds layout ok s))) =
     (ErrorL, ''Error creating cytoscape graph:'')"
  by (simp add: create_instance_def)

lemma containers_ok_truthy:
  assumes "containers_ok g"
  shows "truthy g" and "isArray (get_prop g ''entities'')"
    and "isArray (get_prop g ''relationships'')"
    and "truthy (get_prop g ''entities'')" and "truthy (get_prop g ''relationships'')"
proof -
  from assms show t: "truthy g" and e: "isArray (get_prop g ''entities'')"
    and r: "isArray (get_prop g ''relationships'')"
    by (simp_all add: containers_ok_def)
  from e show "truthy (get_prop g ''entities'')"
    by (cases "get_prop g ''entities''") (simp_all add: isArray_def)
  from r show "truthy (get_prop g ''relationships'')"
    by (cases "get_prop g ''relationships''") (simp_all add: isArray_def)
qed

lemma payload_ok_containers: "payload_ok g \<Longrightarrow> containers_ok g"
  by (simp add: payload_ok_def containers_ok_def)

lemma effect_containers_ok:
  assumes "containers_ok g"
  shows "effect s g (Some r) layout ok =
           build_and_mount (elems (get_prop g ''entities'')) (elems (get_prop g ''relationships''))
             r layout ok (destroy_previous (say LogL ''Creating graph with data:'' s))"
  by (simp add: effect_def containers_ok_truthy[OF assms] Let_def)

lemma effect_containers_bad:
  assumes "\<not> containers_ok g"
  shows "\<forall>n. fst (effect s g c layout ok) \<noteq> Mounted n \<and> fst (effect s g c layout ok) \<noteq> Tally_threw n"
    and "fst (effect s g c layout ok) \<noteq> Zero_dimensions"
    and "fst (effect s g c layout ok) \<noteq> Create_failed"
    and "events (snd (effect s g c layout ok)) = events s"
    and "cyRef (snd (effect s g c layout ok)) = cyRef s"
  using assms
  by (auto simp: effect_def containers_ok_def Let_def split: option.splits)

lemma effect_no_container:
  shows "\<forall>n. fst (effect s g None layout ok) \<noteq> Mounted n \<and> fst (effect s g None layout ok) \<noteq> Tally_threw n"
    and "events (snd (effect s g None layout ok)) = events s"
    and "cyRef (snd (effect s g None layout ok)) = cyRef s"
  by (simp_all add: effect_def)

text \<open>The effect on a payload that passes the data tests and whose elements are built.\<close>

lemma effect_ok_fields:
  assumes p: "containers_ok g"
    and el: "graph_elements (elems (get_prop g ''entities''))
               (elems (get_prop g ''relationships'')) = Inr el"
  shows "fst (effect s g (Some r) layout ok) =
           (if width r = 0 \<or> height r = 0 then Zero_dimensions
            else if \<not> ok then Create_failed
            else if tally_throws (elems (get_prop g ''entities''))
                      (elems (get_prop g ''relationships''))
            then Tally_threw (next_instance s)
            else Mounted (next_instance s))"
    and "cyRef (snd (effect s g (Some r) layout ok)) =
           (if width r = 0 \<or> height r = 0 \<or> \<not> ok then None else Some (next_instance s))"
    and "events (snd (effect s g (Some r) layout ok)) =
           events s @ destroyed (cyRef s) @
           (if width r = 0 \<or> height r = 0 \<or> \<not> ok then []
            else [Created (next_instance s) (nodes el) (edges el) layout])"
    and "timers (snd (effect s g (Some r) layout ok)) =
           (if width r = 0 \<or> height r = 0 \<or> \<not> ok \<or>
               tally_throws (elems (get_prop g ''entities'')) (elems (get_prop g ''relationships''))
            then timers s else timers s @ [next_instance s])"
    and "warnings (console (snd (effect s g (Some r) layout ok))) =
           warnings (console s) @ skipped el"
    and "stats_state (snd (effect s g (Some r) layout ok)) =
           (if width r = 0 \<or> height r = 0 \<or> \<not> ok \<or>
               tally_throws (elems (get_prop g ''entities'')) (elems (get_prop g ''relationships''))
            then stats_state s
            else Some \<lparr> stat_nodes = length (nodes el), stat_edges = length (edges el),
                        entityTypes = getEntityTypeCounts (elems (get_prop g ''entities'')),
                        relationshipTypes =
                          getRelationshipTypeCounts (elems (get_prop g ''relationships'')) \<rparr>)"
  unfolding effect_containers_ok[OF p] build_and_mount_ok[OF el]
  by (simp_all add: Let_def create_instance_fields)

lemma effect_zero_console:
  assumes p: "containers_ok g"
    and el: "graph_elements (elems (get_prop g ''entities''))
               (elems (get_prop g ''relationships'')) = Inr el"
    and z: "width r = 0 \<or> height r = 0"
  shows "last (console (snd (effect s g (Some r) layout ok))) =
           (ErrorL, ''Container has zero dimensions! Cannot render graph.'')"
  unfolding effect_containers_ok[OF p] build_and_mount_ok[OF el]
  using z by (simp add: Let_def)

lemma effect_failed_console:
  assumes p: "containers_ok g"
    and el: "graph_elements (elems (get_prop g ''entities''))
               (elems (get_prop g ''relationships'')) = Inr el"
    and nz: "width r \<noteq> 0" "height r \<noteq> 0" and f: "\<not> ok"
  shows "last (console (snd (effect s g (Some r) layout ok))) =
           (ErrorL, ''Error creating cytoscape graph:'')"
  unfolding effect_containers_ok[OF p] build_and_mount_ok[OF el]
  using nz f by (simp add: Let_def create_instance_failed_console)

lemma effect_throw_fields:
  assumes p: "containers_ok g"
    and th: "graph_elements (elems (get_prop g ''entities''))
               (elems (get_prop g ''relationships'')) = Inl e"
  shows "fst (effect s g (Some r) layout ok) = Threw TypeError"
    and "events (snd (effect s g (Some r) layout ok)) = events s @ destroyed (cyRef s)"
    and "cyRef (snd (effect s g (Some r) layout ok)) = None"
  unfolding effect_containers_ok[OF p] build_and_mount_throw[OF th]
  by simp_all

text \<open>The effect on any payload whatsoever.\<close>

lemma effect_shape:
  "(\<exists>ns eds. (fst (effect s g c layout ok) = Mounted (next_instance s) \<or>
              fst (effect s g c layout ok) = Tally_threw (next_instance s)) \<and>
       events (snd (effect s g c layout ok)) =
         events s @ destroyed (cyRef s) @ [Created (next_instance s) ns eds layout] \<and>
       cyRef (snd (effect s g c layout ok)) = Some (next_instance s) \<and>
       (\<exists>r. c = Some r \<and> width r \<noteq> 0 \<and> height r \<noteq> 0) \<and> ok \<and> containers_ok g \<and>
       (\<exists>el. graph_elements (elems (get_prop g ''entities''))
               (elems (get_prop g ''relationships'')) = Inr el))
   \<or> ((\<forall>n. fst (effect s g c layout ok) \<noteq> Mounted n \<and>
            fst (effect s g c layout ok) \<noteq> Tally_threw n) \<and>
       events (snd (effect s g c layout ok)) = events s @ destroyed (cyRef s) \<and>
       cyRef (snd (effect s g c layout ok)) = None)
   \<or> ((\<forall>n. fst (effect s g c layout ok) \<noteq> Mounted n \<and>
            fst (effect s g c layout ok) \<noteq> Tally_threw n) \<and>
       events (snd (effect s g c layout ok)) = events s \<and>
       cyRef (snd (effect s g c layout ok)) = cyRef s)"
proof (cases "\<exists>r. c = Some r \<and> containers_ok g")
  case True
  then obtain r where c: "c = Some r" and p: "containers_ok g" by blast
  let ?es = "elems (get_prop g ''entities'')"
  let ?rs = "elems (get_prop g ''relationships'')"
  show ?thesis
  proof (cases "graph_elements ?es ?rs")
    case (Inl e)
    note T = effect_throw_fields[OF p Inl, of s r layout ok]
    have "(\<forall>n. fst (effect s g c layout ok) \<noteq> Mounted n \<and>
            fst (effect s g c layout ok) \<noteq> Tally_threw n) \<and>
       events (snd (effect s g c layout ok)) = events s @ destroyed (cyRef s) \<and>
       cyRef (snd (effect s g c layout ok)) = None"
      unfolding c T by simp
    then show ?thesis by blast
  next
    case (Inr el)
    note F = effect_ok_fields[OF p Inr, of s r layout ok]
    show ?thesis
    proof (cases "width r = 0 \<or> height r = 0 \<or> \<not> ok")
      case True
      then have "(\<forall>n. fst (effect s g c layout ok) \<noteq> Mounted n \<and>
            fst (effect s g c layout ok) \<noteq> Tally_threw n) \<and>
         events (snd (effect s g c layout ok)) = events s @ destroyed (cyRef s) \<and>
         cyRef (snd (effect s g c layout ok)) = None"
        unfolding c F by auto
      then show ?thesis by blast
    next
      case False
      then have "(fst (effect s g c layout ok) = Mounted (next_instance s) \<or>
              fst (effect s g c layout ok) = Tally_threw (next_instance s)) \<and>
         events (snd (effect s g c layout ok)) =
           events s @ destroyed (cyRef s) @ [Created (next_instance s) (nodes el) (edges el) layout] \<and>
         cyRef (snd (effect s g c layout ok)) = Some (next_instance s) \<and>
         (\<exists>r. c = Some r \<and> width r \<noteq> 0 \<and> height r \<noteq> 0) \<and> ok \<and> containers_ok g \<and>
         (\<exists>el. graph_elements ?es ?rs = Inr el)"
        unfolding c F using p Inr by auto
      then show ?thesis by blast
    qed
  qed
next
  case False
  show ?thesis
  proof (cases c)
    case None
    from effect_no_container[of s g layout ok]
    have "(\<forall>n. fst (effect s g c layout ok) \<noteq> Mounted n \<and>
            fst (effect s g c layout ok) \<noteq> Tally_threw n) \<and>
       events (snd (effect s g c layout ok)) = events s \<and>
       cyRef (snd (effect s g c layout ok)) = cyRef s"
      unfolding None by blast
    then show ?thesis by blast
  next
    case (Some r)
    with False have bad: "\<not> containers_ok g" by simp
    from effect_containers_bad(1,4,5)[OF bad, of s c layout ok]
    have "(\<forall>n. fst (effect s g c layout ok) \<noteq> Mounted n \<and>
            fst (effect s g c layout ok) \<noteq> Tally_threw n) \<and>
       events (snd (effect s g c layout ok)) = events s \<and>
       cyRef (snd (effect s g c layout ok)) = cyRef s"
      by blast
    then show ?thesis by blast
  qed
qed

lemma effect_MountedD:
  assumes "fst (effect s g c layout ok) = Mounted n"
  obtains r el where "c = Some r" and "width r \<noteq> 0" and "height r \<noteq> 0" and "ok"
    and "containers_ok g"
    and "graph_elements (elems (get_prop g ''entities''))
           (elems (get_prop g ''relationships'')) = Inr el"
    and "n = next_instance s"
    and "\<not> tally_throws (elems (get_prop g ''entities'')) (elems (get_prop g ''relationships''))"
proof -
  from effect_shape[of s g c layout ok] assms obtain r el where
    c: "c = Some r" and nz: "width r \<noteq> 0" "height r \<noteq> 0" and ok: ok and p: "containers_ok g"
    and el: "graph_elements (elems (get_prop g ''entities''))
               (elems (get_prop g ''relationships'')) = Inr el"
    by auto
  from assms have "fst (effect s g (Some r) layout ok) = Mounted n" by (simp add: c)
  with nz ok have "n = next_instance s \<and>
      \<not> tally_throws (elems (get_prop g ''entities'')) (elems (get_prop g ''relationships''))"
    by (simp add: effect_ok_fields(1)[OF p el] split: if_splits)
  with c nz ok p el that show thesis by blast
qed

lemma cleanup_fields [simp]:
  "cyRef (cleanup s) = None"
  "events (cleanup s) = events s @ destroyed (cyRef s)"
  "timers (cleanup s) = timers s"
  "next_instance (cleanup s) = next_instance s"
  "stats_state (cleanup s) = stats_state s"
  by (simp_all add: cleanup_def Let_def destroyed_def split: option.split)

lemma cleanup_twice:
  "cleanup (cleanup s) = say LogL ''Cleanup: destroying cytoscape instance'' (cleanup s)"
proof -
  have "cyRef (say LogL ''Cleanup: destroying cytoscape instance'' (cleanup s)) = None"
    by simp
  then show ?thesis
    by (subst cleanup_def) (simp add: Let_def)
qed

lemma fire_timer_fields:
  "cyRef (fire_timer s) = cyRef s"
  "events (fire_timer s) =
     events s @ (case timers s of [] \<Rightarrow> [] | t # ts \<Rightarrow>
                   (case cyRef s of None \<Rightarrow> [] | Some c \<Rightarrow> [Fitted c]))"
  "timers (fire_timer s) = tl (timers s)"
  by (simp_all add: fire_timer_def split: list.split option.split)

lemma consistent_destroyed:
  assumes "consistent s"
  shows "live (events s @ destroyed (cyRef s)) = []"
  using assms by (simp add: consistent_def destroyed_def split: option.splits)

lemma never_two_destroyed:
  assumes "never_two (events s)" and "consistent s"
  shows "never_two (events s @ destroyed (cyRef s))"
proof (cases "cyRef s")
  case None
  with assms(1) show ?thesis by (simp add: destroyed_def)
next
  case (Some c)
  have "length (live (events s @ [Destroyed c])) \<le> 1"
    using consistent_destroyed[OF assms(2)] Some by (simp add: destroyed_def)
  from never_two_snoc[OF assms(1) this] show ?thesis by (simp add: destroyed_def Some)
qed

lemma steady_cleanup:
  assumes "never_two (events s) \<and> consistent s"
  shows "never_two (events (cleanup s)) \<and> consistent (cleanup s)"
proof
  from assms show "never_two (events (cleanup s))"
    by (simp add: never_two_destroyed)
  from assms have "live (events s @ destroyed (cyRef s)) = []"
    by (simp add: consistent_destroyed)
  then show "consistent (cleanup s)"
    by (simp add: consistent_def)
qed

lemma steady_fire_timer:
  assumes "never_two (events s) \<and> consistent s"
  shows "never_two (events (fire_timer s)) \<and> consistent (fire_timer s)"
proof (cases "\<exists>t ts c. timers s = t # ts \<and> cyRef s = Some c")
  case True
  then obtain t ts c where t: "timers s = t # ts" and c: "cyRef s = Some c" by blast
  then have ev: "events (fire_timer s) = events s @ [Fitted c]"
    by (simp add: fire_timer_fields)
  from assms c have l: "live (events s) = [c]" by (simp add: consistent_def)
  then have "length (live (events s @ [Fitted c])) \<le> 1" by simp
  with assms have "never_two (events s @ [Fitted c])" by (simp add: never_two_snoc)
  moreover have "consistent (fire_timer s)"
    using l c by (simp add: consistent_def ev fire_timer_fields(1))
  ultimately show ?thesis by (simp add: ev)
next
  case False
  then have ev: "events (fire_timer s) = events s"
    by (auto simp: fire_timer_fields split: list.splits option.splits)
  with assms show ?thesis
    by (simp add: consistent_def fire_timer_fields)
qed

lemma steady_effect:
  assumes "never_two (events s) \<and> consistent s"
  shows "never_two (events (snd (effect s g c layout ok))) \<and>
         consistent (snd (effect s g c layout ok))"
proof -
  from assms have n: "never_two (events s)" and k: "consistent s" by simp_all
  note d0 = consistent_destroyed[OF k]
  note d1 = never_two_destroyed[OF n k]
  from effect_shape[of s g c layout ok] consider
    (mounted) ns eds where
      "events (snd (effect s g c layout ok)) =
         events s @ destroyed (cyRef s) @ [Created (next_instance s) ns eds layout]"
      "cyRef (snd (effect s g c layout ok)) = Some (next_instance s)"
  | (cleared)
      "events (snd (effect s g c layout ok)) = events s @ destroyed (cyRef s)"
      "cyRef (snd (effect s g c layout ok)) = None"
  | (kept)
      "events (snd (effect s g c layout ok)) = events s"
      "cyRef (snd (effect s g c layout ok)) = cyRef s"
    by (elim disjE exE conjE) blast+
  then show ?thesis
  proof cases
    case mounted
    have l: "live ((events s @ destroyed (cyRef s)) @ [Created (next_instance s) ns eds layout]) =
               [next_instance s]"
      by (simp only: live_snoc d0) simp
    then have "length (live ((events s @ destroyed (cyRef s)) @
                 [Created (next_instance s) ns eds layout])) \<le> 1" by simp
    from never_two_snoc[OF d1 this] l show ?thesis
      by (simp add: mounted consistent_def)
  next
    case cleared
    with d0 d1 show ?thesis by (simp add: consistent_def)
  next
    case kept
    with n k show ?thesis by (simp add: consistent_def)
  qed
qed

lemma steady_apply_op:
  assumes "never_two (events s) \<and> consistent s"
  shows "never_two (events (apply_op x s)) \<and> consistent (apply_op x s)"
  using assms
  by (cases x) (simp_all only: apply_op.simps steady_effect steady_cleanup steady_fire_timer)

lemma steady_run:
  assumes "never_two (events s) \<and> consistent s"
  shows "never_two (events (run ops s)) \<and> consistent (run ops s)"
  using assms unfolding run_def
proof (induction ops arbitrary: s)
  case Nil
  then show ?case by simp
next
  case (Cons x xs)
  from steady_apply_op[OF Cons.prems] Cons.IH show ?case by simp
qed

lemma steady_init: "never_two (events init_view) \<and> consistent init_view"
  by (simp add: init_view_def consistent_def)

text \<open>
  C3. Whatever sequence of mounts, unmounts and timer callbacks has run since the
  component was created, no prefix of the trace leaves two instances live. A mount that
  creates an instance first destroys the one the reference held, and right after it
  exactly the new instance is live. The cleanup run a second time destroys nothing: it
  only writes its console line.
\<close>

theorem one_live_instance:
  "never_two (events (run ops init_view))
   \<and> length (live (events (run ops init_view))) \<le> 1
   \<and> (fst (effect (run ops init_view) g c layout ok) = Mounted n \<longrightarrow>
        live (events (snd (effect (run ops init_view) g c layout ok))) = [n] \<and>
        (\<exists>ns eds. events (snd (effect (run ops init_view) g c layout ok)) =
           events (run ops init_view) @ destroyed (cyRef (run ops init_view)) @
           [Created n ns eds layout]))
   \<and> cleanup (cleanup s) = say LogL ''Cleanup: destroying cytoscape instance'' (cleanup s)
   \<and> events (cleanup (cleanup s)) = events (cleanup s)
   \<and> cyRef (cleanup (cleanup s)) = None"
proof -
  let ?s = "run ops init_view"
  note st = steady_run[OF steady_init, of ops]
  then have a: "never_two (events ?s)" and k: "consistent ?s" by simp_all
  have b: "length (live (events ?s)) \<le> 1"
    using k by (simp add: consistent_def split: option.splits)
  have c: "fst (effect ?s g c layout ok) = Mounted n \<longrightarrow>
        live (events (snd (effect ?s g c layout ok))) = [n] \<and>
        (\<exists>ns eds. events (snd (effect ?s g c layout ok)) =
           events ?s @ destroyed (cyRef ?s) @ [Created n ns eds layout])"
  proof
    assume m: "fst (effect ?s g c layout ok) = Mounted n"
    with effect_shape[of ?s g c layout ok] obtain ns eds where
      n: "n = next_instance ?s" and
      ev: "events (snd (effect ?s g c layout ok)) =
         events ?s @ destroyed (cyRef ?s) @ [Created (next_instance ?s) ns eds layout]" and
      cy: "cyRef (snd (effect ?s g c layout ok)) = Some (next_instance ?s)"
      by auto
    from steady_effect[OF st, of g c layout ok] have "consistent (snd (effect ?s g c layout ok))"
      by simp
    with cy n have "live (events (snd (effect ?s g c layout ok))) = [n]"
      by (simp add: consistent_def)
    with ev n show "live (events (snd (effect ?s g c layout ok))) = [n] \<and>
        (\<exists>ns eds. events (snd (effect ?s g c layout ok)) =
           events ?s @ destroyed (cyRef ?s) @ [Created n ns eds layout])" by blast
  qed
  have d: "events (cleanup (cleanup s)) = events (cleanup s)"
    by (simp add: destroyed_def)
  have e: "cyRef (cleanup (cleanup s)) = None" by simp
  from a b c cleanup_twice[of s] d e show ?thesis by blast
qed

theorem one_live_instance_witness:
  "never_two (events (run [Mount example_payload (Some canvas) ''cose'' True] init_view)) \<and>
   live (events (snd (effect (run [Mount example_payload (Some canvas) ''cose'' True] init_view)
                        example_payload (Some canvas) ''grid'' True))) = [1]"
proof -
  let ?ops = "[Mount example_payload (Some canvas) ''cose'' True]"
  have m: "fst (effect (run ?ops init_view) example_payload (Some canvas) ''grid'' True) = Mounted 1"
    by code_simp
  from one_live_instance[of ?ops example_payload "Some canvas" "''grid''" True 1 init_view] m
  show ?thesis by blast
qed

lemma not_created_destroyed [simp]: "filter is_created (destroyed r) = []"
  by (simp add: destroyed_def is_created_def split: option.split)

lemma effect_invalid_entities:
  assumes "truthy g" and "\<not> isArray (get_prop g ''entities'')"
  shows "fst (effect s g (Some r) layout ok) = Invalid_entities"
    and "last (console (snd (effect s g (Some r) layout ok))) = (ErrorL, ''Invalid graphData.entities:'')"
  using assms by (simp_all add: effect_def Let_def)

lemma effect_invalid_relationships:
  assumes "truthy g" and "isArray (get_prop g ''entities'')"
    and "\<not> isArray (get_prop g ''relationships'')"
  shows "fst (effect s g (Some r) layout ok) = Invalid_relationships"
    and "last (console (snd (effect s g (Some r) layout ok))) =
           (ErrorL, ''Invalid graphData.relationships:'')"
proof -
  from assms(2) have "truthy (get_prop g ''entities'')"
    by (cases "get_prop g ''entities''") (simp_all add: isArray_def)
  with assms show "fst (effect s g (Some r) layout ok) = Invalid_relationships"
    and "last (console (snd (effect s g (Some r) layout ok))) =
           (ErrorL, ''Invalid graphData.relationships:'')"
    by (simp_all add: effect_def Let_def)
qed

text \<open>
  C2, as stated, fails: with the relationships array holding the one element null, the
  map callback throws at \<open>rel.source\<close>. The effect ends there: the relationship is neither
  kept as an edge nor warned about, and nothing is handed to the library.
\<close>

theorem null_relationship_is_not_classified:
  "graph_elements [alice, acme] [JNull] = Inl TypeError \<and>
   fst (effect init_view
          (JObj [(''entities'', JArr [alice, acme]), (''relationships'', JArr [JNull])])
          (Some canvas) ''cose'' True) = Threw TypeError \<and>
   warnings (console (snd (effect init_view
          (JObj [(''entities'', JArr [alice, acme]), (''relationships'', JArr [JNull])])
          (Some canvas) ''cose'' True))) = [] \<and>
   events (snd (effect init_view
          (JObj [(''entities'', JArr [alice, acme]), (''relationships'', JArr [JNull])])
          (Some canvas) ''cose'' True)) = []"
  by code_simp

text \<open>
  C2, as amended. Whenever the elements are built, every input relationship is either kept
  as an edge or dropped with one warning: the number of warnings plus the number of edges
  is the number of relationships. The elements are built when no entity and no
  relationship is null or undefined and every identifier and endpoint can be converted to
  a string. The effect then writes exactly these warnings on the console and, when it
  goes on to create an instance, creates it from exactly these edges.
\<close>

theorem every_relationship_classified_once:
  "(graph_elements entities relationships = Inr el \<longrightarrow>
      length (skipped el) + length (edges el) = length relationships)
   \<and> (buildable entities relationships \<longrightarrow>
        (\<exists>el'. graph_elements entities relationships = Inr el' \<and>
               length (skipped el') + length (edges el') = length relationships))
   \<and> (containers_ok g \<and> entities = elems (get_prop g ''entities'') \<and>
       relationships = elems (get_prop g ''relationships'') \<and>
       graph_elements entities relationships = Inr el \<longrightarrow>
        warnings (console (snd (effect s g (Some r) layout ok))) =
          warnings (console s) @ skipped el \<and>
        (width r \<noteq> 0 \<and> height r \<noteq> 0 \<and> ok \<longrightarrow>
           last (events (snd (effect s g (Some r) layout ok))) =
             Created (next_instance s) (nodes el) (edges el) layout))"
proof -
  let ?ms = "map (\<lambda>k. edge_of (validNodeIds (map node_of entities)) k (relationships ! k))
               [0..<length relationships]"
  have len: "length (filter (\<lambda>m. \<not> valid m) ?ms) + length (filter valid ?ms) = length relationships"
    using sum_length_filter_compl[of valid ?ms] by simp
  have a: "graph_elements entities relationships = Inr el \<longrightarrow>
      length (skipped el) + length (edges el) = length relationships"
  proof
    assume g: "graph_elements entities relationships = Inr el"
    from len show "length (skipped el) + length (edges el) = length relationships"
      by (simp add: graph_elements_InrD(2,3)[OF g])
  qed
  have b: "buildable entities relationships \<longrightarrow>
        (\<exists>el'. graph_elements entities relationships = Inr el' \<and>
               length (skipped el') + length (edges el') = length relationships)"
  proof
    assume "buildable entities relationships"
    then obtain el' where g: "graph_elements entities relationships = Inr el'"
      using graph_elements_buildable[of entities relationships] by blast
    from len have "length (skipped el') + length (edges el') = length relationships"
      by (simp add: graph_elements_InrD(2,3)[OF g])
    with g show "\<exists>el'. graph_elements entities relationships = Inr el' \<and>
               length (skipped el') + length (edges el') = length relationships" by blast
  qed
  have c: "containers_ok g \<and> entities = elems (get_prop g ''entities'') \<and>
       relationships = elems (get_prop g ''relationships'') \<and>
       graph_elements entities relationships = Inr el \<longrightarrow>
        warnings (console (snd (effect s g (Some r) layout ok))) =
          warnings (console s) @ skipped el \<and>
        (width r \<noteq> 0 \<and> height r \<noteq> 0 \<and> ok \<longrightarrow>
           last (events (snd (effect s g (Some r) layout ok))) =
             Created (next_instance s) (nodes el) (edges el) layout)"
  proof
    assume h: "containers_ok g \<and> entities = elems (get_prop g ''entities'') \<and>
       relationships = elems (get_prop g ''relationships'') \<and>
       graph_elements entities relationships = Inr el"
    then have p: "containers_ok g"
      and g: "graph_elements (elems (get_prop g ''entities''))
                (elems (get_prop g ''relationships'')) = Inr el" by auto
    have w: "warnings (console (snd (effect s g (Some r) layout ok))) =
          warnings (console s) @ skipped el"
      by (rule effect_ok_fields(5)[OF p g])
    have l: "width r \<noteq> 0 \<and> height r \<noteq> 0 \<and> ok \<longrightarrow>
           last (events (snd (effect s g (Some r) layout ok))) =
             Created (next_instance s) (nodes el) (edges el) layout"
      by (simp add: effect_ok_fields(3)[OF p g])
    from w l show "warnings (console (snd (effect s g (Some r) layout ok))) =
          warnings (console s) @ skipped el \<and>
        (width r \<noteq> 0 \<and> height r \<noteq> 0 \<and> ok \<longrightarrow>
           last (events (snd (effect s g (Some r) layout ok))) =
             Created (next_instance s) (nodes el) (edges el) layout)" ..
  qed
  from a b c show ?thesis by blast
qed

theorem every_relationship_classified_once_witness:
  "\<exists>el. graph_elements [alice, acme] [works_at, dangling] = Inr el \<and>
        length (skipped el) + length (edges el) = 2"
proof -
  from every_relationship_classified_once[of "[alice, acme]" "[works_at, dangling]"]
    example_buildable
  have "\<exists>el'. graph_elements [alice, acme] [works_at, dangling] = Inr el' \<and>
               length (skipped el') + length (edges el') = length [works_at, dangling]"
    by blast
  then show ?thesis by (simp add: numeral_2_eq_2)
qed

text \<open>
  C8. With a container of zero width or zero height the effect creates no instance and
  never calls the constructor, whatever the payload. A mount attempt is an effect that
  has passed the data tests and built its elements. With zero extent it stops at the
  dimension check, after it has destroyed the previous instance: it logs the
  zero-dimensions error, which is not one of the two data errors, and leaves the
  reference null; and the zero-dimensions outcome arises in no other way. With a nonzero
  extent the check passes and the constructor is called: when it returns, the new
  instance, created from the built nodes and edges, is in the trace and in the
  reference, and it is the one live instance; when it throws, the error is logged and
  nothing is created. A container that is not an array is reported as a data error,
  whatever the extent.
\<close>

theorem zero_extent_is_refused:
  "(width r = 0 \<or> height r = 0 \<longrightarrow>
      (\<forall>n. fst (effect s g (Some r) layout ok) \<noteq> Mounted n \<and>
           fst (effect s g (Some r) layout ok) \<noteq> Tally_threw n) \<and>
      fst (effect s g (Some r) layout ok) \<noteq> Create_failed \<and>
      filter is_created (events (snd (effect s g (Some r) layout ok))) =
        filter is_created (events s))
   \<and> (containers_ok g \<and>
       graph_elements (elems (get_prop g ''entities'')) (elems (get_prop g ''relationships'')) = Inr el \<and>
       (width r = 0 \<or> height r = 0) \<longrightarrow>
        fst (effect s g (Some r) layout ok) = Zero_dimensions \<and>
        last (console (snd (effect s g (Some r) layout ok))) =
          (ErrorL, ''Container has zero dimensions! Cannot render graph.'') \<and>
        cyRef (snd (effect s g (Some r) layout ok)) = None \<and>
        events (snd (effect s g (Some r) layout ok)) = events s @ destroyed (cyRef s))
   \<and> (fst (effect s g (Some r) layout ok) = Zero_dimensions \<longrightarrow>
        (width r = 0 \<or> height r = 0) \<and> containers_ok g \<and>
        (\<exists>el'. graph_elements (elems (get_prop g ''entities''))
                 (elems (get_prop g ''relationships'')) = Inr el'))
   \<and> (containers_ok g \<and>
       graph_elements (elems (get_prop g ''entities'')) (elems (get_prop g ''relationships'')) = Inr el \<and>
       width r \<noteq> 0 \<and> height r \<noteq> 0 \<and> ok \<longrightarrow>
        events (snd (effect s g (Some r) layout ok)) =
          events s @ destroyed (cyRef s) @
          [Created (next_instance s) (nodes el) (edges el) layout] \<and>
        cyRef (snd (effect s g (Some r) layout ok)) = Some (next_instance s) \<and>
        fst (effect s g (Some r) layout ok) =
          (if tally_throws (elems (get_prop g ''entities'')) (elems (get_prop g ''relationships''))
           then Tally_threw (next_instance s) else Mounted (next_instance s)) \<and>
        (consistent s \<longrightarrow>
           live (events (snd (effect s g (Some r) layout ok))) = [next_instance s]))
   \<and> (containers_ok g \<and>
       graph_elements (elems (get_prop g ''entities'')) (elems (get_prop g ''relationships'')) = Inr el \<and>
       width r \<noteq> 0 \<and> height r \<noteq> 0 \<and> \<not> ok \<longrightarrow>
        fst (effect s g (Some r) layout ok) = Create_failed \<and>
        last (console (snd (effect s g (Some r) layout ok))) =
          (ErrorL, ''Error creating cytoscape graph:'') \<and>
        cyRef (snd (effect s g (Some r) layout ok)) = None \<and>
        events (snd (effect s g (Some r) layout ok)) = events s @ destroyed (cyRef s))
   \<and> (truthy g \<and> \<not> isArray (get_prop g ''entities'') \<longrightarrow>
        fst (effect s g (Some r) layout ok) = Invalid_entities \<and>
        last (console (snd (effect s g (Some r) layout ok))) =
          (ErrorL, ''Invalid graphData.entities:''))
   \<and> (truthy g \<and> isArray (get_prop g ''entities'') \<and> \<not> isArray (get_prop g ''relationships'') \<longrightarrow>
        fst (effect s g (Some r) layout ok) = Invalid_relationships \<and>
        last (console (snd (effect s g (Some r) layout ok))) =
          (ErrorL, ''Invalid graphData.relationships:''))"
proof -
  let ?es = "elems (get_prop g ''entities'')"
  let ?rs = "elems (get_prop g ''relationships'')"
  let ?o = "fst (effect s g (Some r) layout ok)"
  let ?s' = "snd (effect s g (Some r) layout ok)"
  have a: "width r = 0 \<or> height r = 0 \<longrightarrow>
      (\<forall>n. ?o \<noteq> Mounted n \<and> ?o \<noteq> Tally_threw n) \<and> ?o \<noteq> Create_failed \<and>
      filter is_created (events ?s') = filter is_created (events s)"
  proof
    assume z: "width r = 0 \<or> height r = 0"
    show "(\<forall>n. ?o \<noteq> Mounted n \<and> ?o \<noteq> Tally_threw n) \<and> ?o \<noteq> Create_failed \<and>
      filter is_created (events ?s') = filter is_created (events s)"
    proof (cases "containers_ok g")
      case False
      from effect_containers_bad[OF False, of s "Some r" layout ok]
      show ?thesis by simp
    next
      case True
      show ?thesis
      proof (cases "graph_elements ?es ?rs")
        case (Inl e)
        from effect_throw_fields[OF True Inl, of s r layout ok] show ?thesis by simp
      next
        case (Inr el')
        from z show ?thesis
          by (auto simp: effect_ok_fields(1,3)[OF True Inr])
      qed
    qed
  qed
  have b: "containers_ok g \<and> graph_elements ?es ?rs = Inr el \<and> (width r = 0 \<or> height r = 0) \<longrightarrow>
        ?o = Zero_dimensions \<and>
        last (console ?s') = (ErrorL, ''Container has zero dimensions! Cannot render graph.'') \<and>
        cyRef ?s' = None \<and> events ?s' = events s @ destroyed (cyRef s)"
  proof
    assume h: "containers_ok g \<and> graph_elements ?es ?rs = Inr el \<and> (width r = 0 \<or> height r = 0)"
    then have p: "containers_ok g" and el: "graph_elements ?es ?rs = Inr el"
      and z: "width r = 0 \<or> height r = 0" by simp_all
    from z show "?o = Zero_dimensions \<and>
        last (console ?s') = (ErrorL, ''Container has zero dimensions! Cannot render graph.'') \<and>
        cyRef ?s' = None \<and> events ?s' = events s @ destroyed (cyRef s)"
      by (auto simp: effect_ok_fields(1,2,3)[OF p el] effect_zero_console[OF p el z])
  qed
  have c: "?o = Zero_dimensions \<longrightarrow>
        (width r = 0 \<or> height r = 0) \<and> containers_ok g \<and> (\<exists>el'. graph_elements ?es ?rs = Inr el')"
  proof
    assume o: "?o = Zero_dimensions"
    have p: "containers_ok g"
    proof (rule ccontr)
      assume "\<not> containers_ok g"
      from effect_containers_bad(2)[OF this, of s "Some r" layout ok] o show False by simp
    qed
    have ex: "\<exists>el'. graph_elements ?es ?rs = Inr el'"
    proof (cases "graph_elements ?es ?rs")
      case (Inl e)
      from effect_throw_fields(1)[OF p Inl, of s r layout ok] o show ?thesis by simp
    next
      case (Inr el')
      then show ?thesis by blast
    qed
    then obtain el' where el': "graph_elements ?es ?rs = Inr el'" ..
    from o have "width r = 0 \<or> height r = 0"
      by (simp add: effect_ok_fields(1)[OF p el'] split: if_splits)
    with p ex show "(width r = 0 \<or> height r = 0) \<and> containers_ok g \<and>
        (\<exists>el'. graph_elements ?es ?rs = Inr el')" by blast
  qed
  have d: "containers_ok g \<and> graph_elements ?es ?rs = Inr el \<and>
       width r \<noteq> 0 \<and> height r \<noteq> 0 \<and> ok \<longrightarrow>
        events ?s' = events s @ destroyed (cyRef s) @
          [Created (next_instance s) (nodes el) (edges el) layout] \<and>
        cyRef ?s' = Some (next_instance s) \<and>
        ?o = (if tally_throws ?es ?rs then Tally_threw (next_instance s)
              else Mounted (next_instance s)) \<and>
        (consistent s \<longrightarrow> live (events ?s') = [next_instance s])"
  proof
    assume h: "containers_ok g \<and> graph_elements ?es ?rs = Inr el \<and>
       width r \<noteq> 0 \<and> height r \<noteq> 0 \<and> ok"
    then have p: "containers_ok g" and el: "graph_elements ?es ?rs = Inr el" by simp_all
    from h have ev: "events ?s' = events s @ destroyed (cyRef s) @
          [Created (next_instance s) (nodes el) (edges el) layout]"
      and cy: "cyRef ?s' = Some (next_instance s)"
      and o: "?o = (if tally_throws ?es ?rs then Tally_threw (next_instance s)
              else Mounted (next_instance s))"
      by (simp_all add: effect_ok_fields(1,2,3)[OF p el])
    have lv: "consistent s \<longrightarrow> live (events ?s') = [next_instance s]"
    proof
      assume k: "consistent s"
      have "live ((events s @ destroyed (cyRef s)) @
               [Created (next_instance s) (nodes el) (edges el) layout]) = [next_instance s]"
        by (simp only: live_snoc consistent_destroyed[OF k]) simp
      then show "live (events ?s') = [next_instance s]" by (simp add: ev)
    qed
    from ev cy o lv show "events ?s' = events s @ destroyed (cyRef s) @
          [Created (next_instance s) (nodes el) (edges el) layout] \<and>
        cyRef ?s' = Some (next_instance s) \<and>
        ?o = (if tally_throws ?es ?rs then Tally_threw (next_instance s)
              else Mounted (next_instance s)) \<and>
        (consistent s \<longrightarrow> live (events ?s') = [next_instance s])" by blast
  qed
  have e: "containers_ok g \<and> graph_elements ?es ?rs = Inr el \<and>
       width r \<noteq> 0 \<and> height r \<noteq> 0 \<and> \<not> ok \<longrightarrow>
        ?o = Create_failed \<and>
        last (console ?s') = (ErrorL, ''Error creating cytoscape graph:'') \<and>
        cyRef ?s' = None \<and> events ?s' = events s @ destroyed (cyRef s)"
  proof
    assume h: "containers_ok g \<and> graph_elements ?es ?rs = Inr el \<and>
       width r \<noteq> 0 \<and> height r \<noteq> 0 \<and> \<not> ok"
    then have p: "containers_ok g" and el: "graph_elements ?es ?rs = Inr el"
      and nz: "width r \<noteq> 0" "height r \<noteq> 0" and f: "\<not> ok" by simp_all
    have l: "last (console ?s') = (ErrorL, ''Error creating cytoscape graph:'')"
      by (rule effect_failed_console[OF p el nz f])
    from nz f have o: "?o = Create_failed" and cy: "cyRef ?s' = None"
      and ev: "events ?s' = events s @ destroyed (cyRef s)"
      by (simp_all add: effect_ok_fields(1,2,3)[OF p el])
    from o l cy ev show "?o = Create_failed \<and>
        last (console ?s') = (ErrorL, ''Error creating cytoscape graph:'') \<and>
        cyRef ?s' = None \<and> events ?s' = events s @ destroyed (cyRef s)"
      by blast
  qed
  from a b c d e effect_invalid_entities[of g s r layout ok]
    effect_invalid_relationships[of g s r layout ok]
  show ?thesis by blast
qed

theorem zero_extent_is_refused_witness:
  "fst (effect init_view example_payload (Some collapsed) ''cose'' True) = Zero_dimensions \<and>
   last (console (snd (effect init_view example_payload (Some collapsed) ''cose'' True))) =
     (ErrorL, ''Container has zero dimensions! Cannot render graph.'') \<and>
   events (snd (effect init_view example_payload (Some collapsed) ''cose'' True)) = [] \<and>
   fst (effect init_view example_payload (Some canvas) ''cose'' True) = Mounted 0 \<and>
   cyRef (snd (effect init_view example_payload (Some canvas) ''cose'' True)) = Some 0 \<and>
   live (events (snd (effect init_view example_payload (Some canvas) ''cose'' True))) = [0] \<and>
   fst (effect init_view example_payload (Some canvas) ''cose'' False) = Create_failed \<and>
   fst (effect init_view (JObj [(''entities'', JStr ''none'')]) (Some collapsed) ''cose'' True) =
     Invalid_entities \<and>
   fst (effect init_view (JObj [(''entities'', JArr [])]) (Some collapsed) ''cose'' True) =
     Invalid_relationships"
proof -
  let ?el = "\<lparr> nodes = map node_of [alice, acme],
               edges = [data (edge_of (validNodeIds (map node_of [alice, acme])) 0 works_at)],
               skipped = [''Skipping invalid edge: a -> zzz''] \<rparr>"
  have p: "containers_ok example_payload" by code_simp
  have g: "graph_elements (elems (get_prop example_payload ''entities''))
             (elems (get_prop example_payload ''relationships'')) = Inr ?el"
    by code_simp
  have nt: "\<not> tally_throws (elems (get_prop example_payload ''entities''))
             (elems (get_prop example_payload ''relationships''))"
    by code_simp
  have z: "width collapsed = 0 \<or> height collapsed = 0" by (simp add: collapsed_def)
  have nz: "width canvas \<noteq> 0 \<and> height canvas \<noteq> 0" by (simp add: canvas_def)
  have i: "next_instance init_view = 0" "cyRef init_view = None" "events init_view = []"
    "consistent init_view"
    by (simp_all add: init_view_def consistent_def)
  have e1: "truthy (JObj [(''entities'', JStr ''none'')]) \<and>
            \<not> isArray (get_prop (JObj [(''entities'', JStr ''none'')]) ''entities'')"
    by (simp add: isArray_def)
  have e2: "truthy (JObj [(''entities'', JArr [])]) \<and>
            isArray (get_prop (JObj [(''entities'', JArr [])]) ''entities'') \<and>
            \<not> isArray (get_prop (JObj [(''entities'', JArr [])]) ''relationships'')"
    by (simp add: isArray_def)
  from zero_extent_is_refused[of collapsed init_view example_payload "''cose''" True ?el] p g z
  have a: "fst (effect init_view example_payload (Some collapsed) ''cose'' True) = Zero_dimensions"
    "last (console (snd (effect init_view example_payload (Some collapsed) ''cose'' True))) =
     (ErrorL, ''Container has zero dimensions! Cannot render graph.'')"
    "events (snd (effect init_view example_payload (Some collapsed) ''cose'' True)) =
       events init_view @ destroyed (cyRef init_view)"
    by blast+
  from a(3) have a3: "events (snd (effect init_view example_payload (Some collapsed) ''cose'' True)) = []"
    by (simp add: i destroyed_def)
  from zero_extent_is_refused[of canvas init_view example_payload "''cose''" True ?el] p g nz
  have b0: "cyRef (snd (effect init_view example_payload (Some canvas) ''cose'' True)) =
              Some (next_instance init_view)"
    "fst (effect init_view example_payload (Some canvas) ''cose'' True) =
          (if tally_throws (elems (get_prop example_payload ''entities''))
                (elems (get_prop example_payload ''relationships''))
           then Tally_threw (next_instance init_view) else Mounted (next_instance init_view))"
    "consistent init_view \<longrightarrow>
       live (events (snd (effect init_view example_payload (Some canvas) ''cose'' True))) =
         [next_instance init_view]"
    by blast+
  from b0 nt i have b: "fst (effect init_view example_payload (Some canvas) ''cose'' True) = Mounted 0"
    "cyRef (snd (effect init_view example_payload (Some canvas) ''cose'' True)) = Some 0"
    "live (events (snd (effect init_view example_payload (Some canvas) ''cose'' True))) = [0]"
    by simp_all
  from zero_extent_is_refused[of canvas init_view example_payload "''cose''" False ?el] p g nz
  have f: "fst (effect init_view example_payload (Some canvas) ''cose'' False) = Create_failed"
    by blast
  from zero_extent_is_refused[of collapsed init_view "JObj [(''entities'', JStr ''none'')]" "''cose''" True ?el] e1
  have c: "fst (effect init_view (JObj [(''entities'', JStr ''none'')]) (Some collapsed) ''cose'' True) =
     Invalid_entities" by blast
  from zero_extent_is_refused[of collapsed init_view "JObj [(''entities'', JArr [])]" "''cose''" True ?el] e2
  have d: "fst (effect init_view (JObj [(''entities'', JArr [])]) (Some collapsed) ''cose'' True) =
     Invalid_relationships" by blast
  from a(1,2) a3 b f c d show ?thesis by blast
qed

lemma effect_mounted_timers:
  assumes "fst (effect s g c layout ok) = Mounted n"
  shows "timers (snd (effect s g c layout ok)) = timers s @ [n]"
proof -
  from effect_MountedD[OF assms] obtain r el where
    c: "c = Some r" and nz: "width r \<noteq> 0" "height r \<noteq> 0" and ok: ok and p: "containers_ok g"
    and el: "graph_elements (elems (get_prop g ''entities''))
               (elems (get_prop g ''relationships'')) = Inr el"
    and n: "n = next_instance s"
    and nt: "\<not> tally_throws (elems (get_prop g ''entities'')) (elems (get_prop g ''relationships''))"
    by blast
  show ?thesis
    unfolding c using nz ok n nt by (simp add: effect_ok_fields(4)[OF p el])
qed

text \<open>
  C9, as stated, fails: after a mount, an unmount and a second mount, the oldest pending
  timer is the one the first instance scheduled, the reference holds the second instance,
  and the callback fits the second instance.
\<close>

theorem deferred_fit_reaches_later_instance:
  "timers (run [Mount example_payload (Some canvas) ''cose'' True, Unmount,
                Mount example_payload (Some canvas) ''grid'' True] init_view) = [0, 1] \<and>
   cyRef (run [Mount example_payload (Some canvas) ''cose'' True, Unmount,
               Mount example_payload (Some canvas) ''grid'' True] init_view) = Some 1 \<and>
   events (fire_timer (run [Mount example_payload (Some canvas) ''cose'' True, Unmount,
               Mount example_payload (Some canvas) ''grid'' True] init_view)) =
     events (run [Mount example_payload (Some canvas) ''cose'' True, Unmount,
               Mount example_payload (Some canvas) ''grid'' True] init_view) @ [Fitted 1]"
  by code_simp

text \<open>
  C9, as amended. A mount that creates an instance schedules one callback. The callback
  fits whatever instance the reference holds when it runs and does nothing when the
  reference is null, as it is after the cleanup. It never changes the reference.
\<close>

theorem deferred_fit_uses_current_reference:
  "(fst (effect s g c layout ok) = Mounted n \<longrightarrow>
      timers (snd (effect s g c layout ok)) = timers s @ [n])
   \<and> (timers s = t # ts \<and> cyRef s = Some i \<longrightarrow>
        events (fire_timer s) = events s @ [Fitted i] \<and> timers (fire_timer s) = ts)
   \<and> (cyRef s = None \<longrightarrow> events (fire_timer s) = events s)
   \<and> events (fire_timer (cleanup s)) = events (cleanup s)
   \<and> cyRef (fire_timer s) = cyRef s"
proof -
  have a: "fst (effect s g c layout ok) = Mounted n \<longrightarrow>
      timers (snd (effect s g c layout ok)) = timers s @ [n]"
    by (simp add: effect_mounted_timers)
  have b: "timers s = t # ts \<and> cyRef s = Some i \<longrightarrow>
        events (fire_timer s) = events s @ [Fitted i] \<and> timers (fire_timer s) = ts"
    by (simp add: fire_timer_fields)
  have c: "cyRef s = None \<longrightarrow> events (fire_timer s) = events s"
    by (simp add: fire_timer_fields split: list.split)
  have d: "events (fire_timer (cleanup s)) = events (cleanup s)"
    by (simp add: fire_timer_fields split: list.split)
  from a b c d fire_timer_fields(1)[of s] show ?thesis by blast
qed

theorem deferred_fit_uses_current_reference_witness:
  "timers (snd (effect init_view example_payload (Some canvas) ''cose'' True)) = [0] \<and>
   events (fire_timer (snd (effect init_view example_payload (Some canvas) ''cose'' True))) =
     events (snd (effect init_view example_payload (Some canvas) ''cose'' True)) @ [Fitted 0] \<and>
   events (fire_timer init_view) = events init_view"
proof -
  let ?s = "snd (effect init_view example_payload (Some canvas) ''cose'' True)"
  have m: "fst (effect init_view example_payload (Some canvas) ''cose'' True) = Mounted 0"
    by code_simp
  have t0: "timers init_view = []" by (simp add: init_view_def)
  have c0: "cyRef init_view = None" by (simp add: init_view_def)
  from deferred_fit_uses_current_reference
         [of init_view example_payload "Some canvas" "''cose''" True 0 0 "[]" 0] m t0
  have a: "timers ?s = [0]" by simp
  have c1: "cyRef ?s = Some 0" by code_simp
  from deferred_fit_uses_current_reference
         [of ?s example_payload "Some canvas" "''cose''" True 0 0 "[]" 0] a c1
  have b: "events (fire_timer ?s) = events ?s @ [Fitted 0]" by blast
  from deferred_fit_uses_current_reference
         [of init_view example_payload "Some canvas" "''cose''" True 0 0 "[]" 0] c0
  have c: "events (fire_timer init_view) = events init_view" by blast
  from a b c show ?thesis by blast
qed

text \<open>
  C4, as stated, fails: for the example payload the JSON export is the payload itself,
  with both relationships, while the elements built from it hold one edge and one
  warning.
\<close>

theorem export_holds_rejected_relationship:
  "exportGraph (snd (effect init_view example_payload (Some canvas) ''cose'' True))
     example_payload ''json'' = Some (Json_of example_payload) \<and>
   get_prop example_payload ''relationships'' = JArr [works_at, dangling] \<and>
   graph_elements (elems (get_prop example_payload ''entities''))
     (elems (get_prop example_payload ''relationships'')) =
     Inr \<lparr> nodes = map node_of [alice, acme],
           edges = [\<lparr> edge_id = ''edge-0'', source = ''a'', target = ''b'',
                     edge_label = JStr ''works_at'', edge_type = JStr ''works_at'' \<rparr>],
           skipped = [''Skipping invalid edge: a -> zzz''] \<rparr>"
  by code_simp

text \<open>
  C4, as amended. With a live instance the JSON export hands \<open>graphData\<close>, the payload as
  received, to the serializer, and the PNG export asks the live instance for its raster;
  with no live instance both do nothing. After a mount that created an instance the
  JSON export of the mounted payload is that payload.
\<close>

theorem export_serializes_graphData:
  "exportGraph s g ''json'' = (case cyRef s of None \<Rightarrow> None | Some i \<Rightarrow> Some (Json_of g))
   \<and> exportGraph s g ''png'' = (case cyRef s of None \<Rightarrow> None | Some i \<Rightarrow> Some (Png_of i))
   \<and> (fst (effect s g c layout ok) = Mounted n \<longrightarrow>
        exportGraph (snd (effect s g c layout ok)) g ''json'' = Some (Json_of g))"
proof -
  have a: "exportGraph s g ''json'' = (case cyRef s of None \<Rightarrow> None | Some i \<Rightarrow> Some (Json_of g))"
    by (simp add: exportGraph_def split: option.split)
  have b: "exportGraph s g ''png'' = (case cyRef s of None \<Rightarrow> None | Some i \<Rightarrow> Some (Png_of i))"
    by (simp add: exportGraph_def split: option.split)
  have c: "fst (effect s g c layout ok) = Mounted n \<longrightarrow>
        exportGraph (snd (effect s g c layout ok)) g ''json'' = Some (Json_of g)"
  proof
    assume "fst (effect s g c layout ok) = Mounted n"
    with effect_shape[of s g c layout ok]
    have "cyRef (snd (effect s g c layout ok)) = Some (next_instance s)" by auto
    then show "exportGraph (snd (effect s g c layout ok)) g ''json'' = Some (Json_of g)"
      by (simp add: exportGraph_def)
  qed
  from a b c show ?thesis by blast
qed

theorem export_serializes_graphData_witness:
  "exportGraph (snd (effect init_view example_payload (Some canvas) ''cose'' True))
     example_payload ''json'' = Some (Json_of example_payload)"
proof -
  have m: "fst (effect init_view example_payload (Some canvas) ''cose'' True) = Mounted 0"
    by code_simp
  from export_serializes_graphData[of init_view example_payload "Some canvas" "''cose''" True 0] m
  show ?thesis by blast
qed

section \<open>Properties of the legend counts\<close>

lemma sum_counts_Nil [simp]: "sum_counts [] = 0"
  by (simp add: sum_counts_def)

lemma sum_counts_Cons [simp]: "sum_counts (kv # acc) = count_of (snd kv) + sum_counts acc"
  by (simp add: sum_counts_def)

lemma sum_counts_append [simp]: "sum_counts (a @ b) = sum_counts a + sum_counts b"
  by (simp add: sum_counts_def)

lemma update_absent:
  "k \<notin> set (map fst acc) \<Longrightarrow> map (\<lambda>kv. if fst kv = k then (k, v) else kv) acc = acc"
  by (induction acc) auto

lemma sum_counts_update:
  assumes "distinct (map fst acc)" and "map_of acc k = Some (Count n)"
  shows "sum_counts (map (\<lambda>kv. if fst kv = k then (k, Count (Suc n)) else kv) acc) = Suc (sum_counts acc)"
  using assms
proof (induction acc)
  case Nil
  then show ?case by simp
next
  case (Cons kv acc)
  show ?case
  proof (cases "fst kv = k")
    case True
    with Cons.prems have v: "snd kv = Count n" and "k \<notin> set (map fst acc)"
      by (cases kv; auto)+
    then show ?thesis using True by (simp add: update_absent)
  next
    case False
    with Cons.prems have "distinct (map fst acc)" "map_of acc k = Some (Count n)"
      by (cases kv; auto)+
    from Cons.IH[OF this] False show ?thesis by simp
  qed
qed

lemma bump_numeric:
  assumes "numeric acc" and "k \<notin> set object_prototype_keys"
  shows "numeric (bump acc k) \<and> sum_counts (bump acc k) = Suc (sum_counts acc)"
proof -
  from assms(2) have np: "k \<noteq> ''__proto__''"
    by (auto simp: object_prototype_keys_def)
  from assms(1) have d: "distinct (map fst acc)" and j: "\<forall>kv\<in>set acc. snd kv \<noteq> Junk"
    by (simp_all add: numeric_def list_all_iff)
  show ?thesis
  proof (cases "map_of acc k")
    case None
    then have nk: "k \<notin> set (map fst acc)" by (simp add: map_of_eq_None_iff)
    then have "bump acc k = acc @ [(k, Count 1)]"
      using None assms(2) np by (simp add: bump_def assign_def)
    with d j nk show ?thesis by (simp add: numeric_def list_all_iff)
  next
    case (Some v)
    then have mem: "(k, v) \<in> set acc" by (rule map_of_SomeD)
    with j have "v \<noteq> Junk" by force
    then obtain n where v: "v = Count n" by (cases v) simp_all
    from mem have ik: "k \<in> set (map fst acc)" by force
    have b: "bump acc k = map (\<lambda>kv. if fst kv = k then (k, Count (Suc n)) else kv) acc"
      using Some v np ik by (simp add: bump_def assign_def)
    have keys: "map fst (map (\<lambda>kv. if fst kv = k then (k, Count (Suc n)) else kv) acc) = map fst acc"
      by (induction acc) auto
    have vals: "\<forall>kv\<in>set (map (\<lambda>kv. if fst kv = k then (k, Count (Suc n)) else kv) acc). snd kv \<noteq> Junk"
      using j by auto
    from keys d have dk: "distinct (map fst (map (\<lambda>kv. if fst kv = k then (k, Count (Suc n)) else kv) acc))"
      by (simp only:)
    from dk vals have "numeric (map (\<lambda>kv. if fst kv = k then (k, Count (Suc n)) else kv) acc)"
      unfolding numeric_def list_all_iff by blast
    with sum_counts_update[OF d Some[unfolded v]]
    show ?thesis unfolding b by blast
  qed
qed

lemma fold_bump_sum_counts:
  assumes "numeric acc" and "\<forall>k\<in>set ks. k \<notin> set object_prototype_keys"
  shows "numeric (fold (\<lambda>k acc. bump acc k) ks acc) \<and>
         sum_counts (fold (\<lambda>k acc. bump acc k) ks acc) = sum_counts acc + length ks"
  using assms
proof (induction ks arbitrary: acc)
  case Nil
  then show ?case by simp
next
  case (Cons k ks)
  from Cons.prems have k: "k \<notin> set object_prototype_keys"
    and ks: "\<forall>k\<in>set ks. k \<notin> set object_prototype_keys" by simp_all
  from bump_numeric[OF Cons.prems(1) k] have n: "numeric (bump acc k)"
    and t: "sum_counts (bump acc k) = Suc (sum_counts acc)" by simp_all
  from Cons.IH[OF n ks] t show ?case by simp
qed

lemma getEntityTypeCounts_sum_counts:
  assumes "\<forall>e\<in>set entities. entity_type_key e \<notin> set object_prototype_keys"
  shows "sum_counts (getEntityTypeCounts entities) = length entities"
proof -
  have "getEntityTypeCounts entities =
          fold (\<lambda>k acc. bump acc k) (map entity_type_key entities) []"
    by (simp add: getEntityTypeCounts_def fold_map comp_def)
  moreover have "numeric []" by (simp add: numeric_def)
  moreover from assms have "\<forall>k\<in>set (map entity_type_key entities). k \<notin> set object_prototype_keys"
    by simp
  ultimately show ?thesis
    using fold_bump_sum_counts[of "[]" "map entity_type_key entities"] by simp
qed

text \<open>
  C5, as stated, fails: for two entities of one identifier and one relationship that is
  dropped, the statistics count two nodes where the valid ids are one, and the
  relationship types count the dropped relationship where the edges are none.
\<close>

theorem stats_count_duplicates_and_rejected:
  "stats_state (snd (effect init_view twins_payload (Some canvas) ''cose'' True)) =
     Some \<lparr> stat_nodes = 2, stat_edges = 0,
            entityTypes = [(''Unknown'', Count 2)],
            relationshipTypes = [(''bad'', Count 1)] \<rparr> \<and>
   sum_counts [(''bad'', Count 1)] = 1 \<and>
   validNodeIds (map node_of (elems (get_prop twins_payload ''entities''))) = {''x''}"
  by code_simp

text \<open>
  C5, as amended. After a mount that created an instance, the statistics hold the number
  of nodes built, which is the number of input entities, the number of edges kept, and the
  entity types counted over the input entities. Unless an entity's type is the name of a
  property of \<open>Object.prototype\<close>, the entity type counts sum to the number of nodes.
\<close>

theorem stats_count_built_elements:
  assumes "fst (effect s g c layout ok) = Mounted n"
  shows "\<exists>el st.
           graph_elements (elems (get_prop g ''entities''))
             (elems (get_prop g ''relationships'')) = Inr el \<and>
           stats_state (snd (effect s g c layout ok)) = Some st \<and>
           stat_nodes st = length (nodes el) \<and>
           stat_nodes st = length (elems (get_prop g ''entities'')) \<and>
           stat_edges st = length (edges el) \<and>
           entityTypes st = getEntityTypeCounts (elems (get_prop g ''entities'')) \<and>
           ((\<forall>e\<in>set (elems (get_prop g ''entities'')).
               entity_type_key e \<notin> set object_prototype_keys) \<longrightarrow>
            sum_counts (entityTypes st) = stat_nodes st)"
proof -
  from effect_MountedD[OF assms] obtain r el where
    c: "c = Some r" and nz: "width r \<noteq> 0" "height r \<noteq> 0" and ok: ok and p: "containers_ok g"
    and el: "graph_elements (elems (get_prop g ''entities''))
               (elems (get_prop g ''relationships'')) = Inr el"
    and nt: "\<not> tally_throws (elems (get_prop g ''entities'')) (elems (get_prop g ''relationships''))"
    by blast
  let ?es = "elems (get_prop g ''entities'')"
  let ?st = "\<lparr> stat_nodes = length (nodes el), stat_edges = length (edges el),
               entityTypes = getEntityTypeCounts ?es,
               relationshipTypes = getRelationshipTypeCounts (elems (get_prop g ''relationships'')) \<rparr>"
  have st: "stats_state (snd (effect s g c layout ok)) = Some ?st"
    unfolding c using nz ok nt by (simp add: effect_ok_fields(6)[OF p el])
  have len: "length (nodes el) = length ?es"
    by (simp add: graph_elements_InrD(1)[OF el])
  have sum: "(\<forall>e\<in>set ?es. entity_type_key e \<notin> set object_prototype_keys) \<longrightarrow>
            sum_counts (entityTypes ?st) = stat_nodes ?st"
    by (simp add: getEntityTypeCounts_sum_counts len)
  show ?thesis
  proof (intro exI conjI)
    show "graph_elements ?es (elems (get_prop g ''relationships'')) = Inr el" by (rule el)
    show "stats_state (snd (effect s g c layout ok)) = Some ?st" by (rule st)
    show "stat_nodes ?st = length (nodes el)" by simp
    show "stat_nodes ?st = length ?es" by (simp add: len)
    show "stat_edges ?st = length (edges el)" by simp
    show "entityTypes ?st = getEntityTypeCounts ?es" by simp
    show "(\<forall>e\<in>set ?es. entity_type_key e \<notin> set object_prototype_keys) \<longrightarrow>
            sum_counts (entityTypes ?st) = stat_nodes ?st" by (rule sum)
  qed
qed

theorem stats_count_built_elements_witness:
  "\<exists>st. stats_state (snd (effect init_view example_payload (Some canvas) ''cose'' True)) = Some st \<and>
        stat_nodes st = 2 \<and> stat_edges st = 1 \<and> sum_counts (entityTypes st) = 2"
proof -
  let ?s' = "snd (effect init_view example_payload (Some canvas) ''cose'' True)"
  let ?es = "elems (get_prop example_payload ''entities'')"
  let ?rs = "elems (get_prop example_payload ''relationships'')"
  have m: "fst (effect init_view example_payload (Some canvas) ''cose'' True) = Mounted 0"
    by code_simp
  have keys: "\<forall>e\<in>set ?es. entity_type_key e \<notin> set object_prototype_keys"
    by code_simp
  have n2: "length ?es = 2" by code_simp
  have g: "graph_elements ?es ?rs =
     Inr \<lparr> nodes = map node_of [alice, acme],
           edges = [data (edge_of (validNodeIds (map node_of [alice, acme])) 0 works_at)],
           skipped = [''Skipping invalid edge: a -> zzz''] \<rparr>"
    by code_simp
  from stats_count_built_elements[OF m] obtain el st where
    el: "graph_elements ?es ?rs = Inr el" and
    st: "stats_state ?s' = Some st" and
    a: "stat_nodes st = length ?es" and
    b: "stat_edges st = length (edges el)" and
    s: "(\<forall>e\<in>set ?es. entity_type_key e \<notin> set object_prototype_keys) \<longrightarrow>
            sum_counts (entityTypes st) = stat_nodes st"
    by blast
  from el g have "el = \<lparr> nodes = map node_of [alice, acme],
           edges = [data (edge_of (validNodeIds (map node_of [alice, acme])) 0 works_at)],
           skipped = [''Skipping invalid edge: a -> zzz''] \<rparr>"
    by (simp only: sum.inject)
  then have "length (edges el) = 1" by simp
  with st a b s keys n2 show ?thesis by simp
qed

section \<open>Determinism of the build\<close>

text \<open>
  C7. The elements are a function of the two input sequences alone. Nodes keep the order
  of the entities; edges and warnings keep the order of the relationships; the id of an
  edge is edge-k for its position k in the input relationships, so the ids of the kept
  edges are pairwise distinct and do not shift when an earlier relationship is dropped.
  Whatever state the component is in, a mount of the payload hands these same nodes and
  edges to the library and writes these same warnings.
\<close>

theorem elements_follow_input_order:
  assumes "graph_elements entities relationships = Inr el"
  shows "nodes el = map node_of entities
       \<and> edges el = map (\<lambda>k. data (edge_of (validNodeIds (nodes el)) k (relationships ! k)))
                     (filter (\<lambda>k. valid (edge_of (validNodeIds (nodes el)) k (relationships ! k)))
                        [0..<length relationships])
       \<and> skipped el = map (\<lambda>k. skip_message (edge_of (validNodeIds (nodes el)) k (relationships ! k)))
                     (filter (\<lambda>k. \<not> valid (edge_of (validNodeIds (nodes el)) k (relationships ! k)))
                        [0..<length relationships])
       \<and> map edge_id (edges el) = map (\<lambda>k. ''edge-'' @ show_nat k)
                     (filter (\<lambda>k. valid (edge_of (validNodeIds (nodes el)) k (relationships ! k)))
                        [0..<length relationships])
       \<and> distinct (map edge_id (edges el))
       \<and> (payload_ok g \<and> entities = elems (get_prop g ''entities'') \<and>
          relationships = elems (get_prop g ''relationships'') \<and>
          width r \<noteq> 0 \<and> height r \<noteq> 0 \<longrightarrow>
            events (snd (effect s g (Some r) layout True)) =
              events s @ destroyed (cyRef s) @
              [Created (next_instance s) (nodes el) (edges el) layout] \<and>
            warnings (console (snd (effect s g (Some r) layout True))) =
              warnings (console s) @ skipped el)"
proof -
  note D = graph_elements_InrD[OF assms]
  let ?ids = "validNodeIds (nodes el)"
  let ?f = "\<lambda>k. edge_of ?ids k (relationships ! k)"
  let ?ks = "filter (\<lambda>k. valid (?f k)) [0..<length relationships]"
  have ids: "validNodeIds (map node_of entities) = ?ids" by (simp add: D(1))
  have e: "edges el = map (\<lambda>k. data (?f k)) ?ks"
    unfolding D(2) ids by (simp add: filter_map comp_def)
  have s: "skipped el = map (\<lambda>k. skip_message (?f k))
             (filter (\<lambda>k. \<not> valid (?f k)) [0..<length relationships])"
    unfolding D(3) ids by (simp add: filter_map comp_def)
  have i: "map edge_id (edges el) = map (\<lambda>k. ''edge-'' @ show_nat k) ?ks"
    unfolding e by (simp add: comp_def)
  have "inj (\<lambda>k. ''edge-'' @ show_nat k)"
    by (rule injI) (simp add: show_nat_inj)
  then have "inj_on (\<lambda>k. ''edge-'' @ show_nat k) (set ?ks)"
    by (rule inj_on_subset) simp
  then have d: "distinct (map edge_id (edges el))"
    unfolding i by (simp add: distinct_map)
  have r: "payload_ok g \<and> entities = elems (get_prop g ''entities'') \<and>
          relationships = elems (get_prop g ''relationships'') \<and>
          width r \<noteq> 0 \<and> height r \<noteq> 0 \<longrightarrow>
            events (snd (effect s g (Some r) layout True)) =
              events s @ destroyed (cyRef s) @
              [Created (next_instance s) (nodes el) (edges el) layout] \<and>
            warnings (console (snd (effect s g (Some r) layout True))) =
              warnings (console s) @ skipped el"
  proof
    assume h: "payload_ok g \<and> entities = elems (get_prop g ''entities'') \<and>
          relationships = elems (get_prop g ''relationships'') \<and>
          width r \<noteq> 0 \<and> height r \<noteq> 0"
    then have p: "containers_ok g" by (simp add: payload_ok_containers)
    from h assms have el: "graph_elements (elems (get_prop g ''entities''))
               (elems (get_prop g ''relationships'')) = Inr el" by simp
    from h show "events (snd (effect s g (Some r) layout True)) =
              events s @ destroyed (cyRef s) @
              [Created (next_instance s) (nodes el) (edges el) layout] \<and>
            warnings (console (snd (effect s g (Some r) layout True))) =
              warnings (console s) @ skipped el"
      by (simp add: effect_ok_fields(3,5)[OF p el])
  qed
  from D(1) e s i d r show ?thesis by blast
qed

theorem elements_follow_input_order_witness:
  "\<exists>el. graph_elements [alice, acme] [dangling, works_at] = Inr el \<and>
        map edge_id (edges el) = [''edge-1'']"
proof -
  let ?el = "\<lparr> nodes = map node_of [alice, acme],
           edges = [data (edge_of (validNodeIds (map node_of [alice, acme])) 1 works_at)],
           skipped = [skip_message (edge_of (validNodeIds (map node_of [alice, acme])) 0 dangling)] \<rparr>"
  have g: "graph_elements [alice, acme] [dangling, works_at] = Inr ?el"
    by code_simp
  have v: "filter (\<lambda>k. valid (edge_of (validNodeIds (nodes ?el)) k ([dangling, works_at] ! k)))
             [0..<length [dangling, works_at]] = [1]"
    by code_simp
  have n: "show_nat (Suc 0) = ''1''"
    by (simp add: show_nat.simps[of "Suc 0"] digit_char_def)
  from elements_follow_input_order[OF g] have
    "map edge_id (edges ?el) = map (\<lambda>k. ''edge-'' @ show_nat k)
         (filter (\<lambda>k. valid (edge_of (validNodeIds (nodes ?el)) k ([dangling, works_at] ! k)))
            [0..<length [dangling, works_at]])"
    by blast
  then have h: "map edge_id (edges ?el) = [''edge-1'']"
    unfolding v by (simp add: n)
  show ?thesis
  proof (intro exI conjI)
    show "graph_elements [alice, acme] [dangling, works_at] = Inr ?el" by (rule g)
    show "map edge_id (edges ?el) = [''edge-1'']" by (rule h)
  qed
qed

end
